theory Spec2Isabelle
  imports Main "HOL-Library.Char_ord" "HOL-Library.List_Lexorder"
begin

section \<open>Python strings\<close>

text \<open>
  A Python \<open>str\<close> is modelled as a \<^typ>\<open>string\<close>, a list of characters; a character
  stands for a code point below 256. The functions of this section are the \<open>str\<close>
  methods that \<open>process_intake.py\<close> calls.
\<close>

text \<open>\<open>str(n)\<close> and \<open>f"{n}"\<close> for a non-negative integer: its decimal digits.\<close>

fun str_nat :: "nat \<Rightarrow> string" where
  "str_nat n =
     (if n < 10 then [''0123456789'' ! n]
      else str_nat (n div 10) @ [''0123456789'' ! (n mod 10)])"

declare str_nat.simps [simp del]

text \<open>\<open>str.lower()\<close>: \<open>A\<close> to \<open>Z\<close> and the upper-case letters of the Latin-1 range.\<close>

definition upper_letters :: string where
  "upper_letters = ''ABCDEFGHIJKLMNOPQRSTUVWXYZ'' @
     [CHR 0xC0, CHR 0xC1, CHR 0xC2, CHR 0xC3, CHR 0xC4, CHR 0xC5, CHR 0xC6, CHR 0xC7,
      CHR 0xC8, CHR 0xC9, CHR 0xCA, CHR 0xCB, CHR 0xCC, CHR 0xCD, CHR 0xCE, CHR 0xCF,
      CHR 0xD0, CHR 0xD1, CHR 0xD2, CHR 0xD3, CHR 0xD4, CHR 0xD5, CHR 0xD6,
      CHR 0xD8, CHR 0xD9, CHR 0xDA, CHR 0xDB, CHR 0xDC, CHR 0xDD, CHR 0xDE]"

definition lower_letters :: string where
  "lower_letters = ''abcdefghijklmnopqrstuvwxyz'' @
     [CHR 0xE0, CHR 0xE1, CHR 0xE2, CHR 0xE3, CHR 0xE4, CHR 0xE5, CHR 0xE6, CHR 0xE7,
      CHR 0xE8, CHR 0xE9, CHR 0xEA, CHR 0xEB, CHR 0xEC, CHR 0xED, CHR 0xEE, CHR 0xEF,
      CHR 0xF0, CHR 0xF1, CHR 0xF2, CHR 0xF3, CHR 0xF4, CHR 0xF5, CHR 0xF6,
      CHR 0xF8, CHR 0xF9, CHR 0xFA, CHR 0xFB, CHR 0xFC, CHR 0xFD, CHR 0xFE]"

definition lower_char :: "char \<Rightarrow> char" where
  "lower_char c = (case map_of (zip upper_letters lower_letters) c of Some l \<Rightarrow> l | None \<Rightarrow> c)"

definition lower :: "string \<Rightarrow> string" where
  "lower s = map lower_char s"

text \<open>\<open>s.startswith(p)\<close>, \<open>s.endswith(p)\<close> and the substring test \<open>p in s\<close>.\<close>

definition startswith :: "string \<Rightarrow> string \<Rightarrow> bool" where
  "startswith s p = (take (length p) s = p)"

definition endswith :: "string \<Rightarrow> string \<Rightarrow> bool" where
  "endswith s p = (length p \<le> length s \<and> drop (length s - length p) s = p)"

fun contains :: "string \<Rightarrow> string \<Rightarrow> bool" where
  "contains [] p = (p = [])"
| "contains (c # cs) p = (startswith (c # cs) p \<or> contains cs p)"

text \<open>
  \<open>str.isspace()\<close> on one character, and \<open>str.strip()\<close>, which removes the white space at
  both ends.
\<close>

definition isspace :: "char \<Rightarrow> bool" where
  "isspace c = (c \<in> set [CHR 0x09, CHR 0x0A, CHR 0x0B, CHR 0x0C, CHR 0x0D, CHR 0x1C,
                          CHR 0x1D, CHR 0x1E, CHR 0x1F, CHR 0x20, CHR 0x85, CHR 0xA0])"

definition lstrip :: "string \<Rightarrow> string" where
  "lstrip s = dropWhile isspace s"

definition rstrip :: "string \<Rightarrow> string" where
  "rstrip s = rev (dropWhile isspace (rev s))"

definition strip :: "string \<Rightarrow> string" where
  "strip s = rstrip (lstrip s)"

text \<open>\<open>s.rfind('.')\<close>: the index of the last dot, \<open>None\<close> for Python's \<open>-1\<close>.\<close>

definition rfind_dot :: "string \<Rightarrow> nat option" where
  "rfind_dot s =
     (if CHR ''.'' \<in> set s
      then Some (length s - 1 - length (takeWhile (\<lambda>c. c \<noteq> CHR ''.'') (rev s)))
      else None)"

section \<open>Paths\<close>

text \<open>
  A \<open>pathlib.Path\<close> is the list of its components, outermost first. \<open>name\<close>, \<open>suffix\<close> and
  \<open>stem\<close> follow \<open>pathlib\<close>: the suffix starts at the last dot of the name unless that dot
  is the first or the last character.
\<close>

type_synonym path = "string list"

definition path_name :: "path \<Rightarrow> string" where
  "path_name p = (if p = [] then [] else last p)"

definition path_parent :: "path \<Rightarrow> path" where
  "path_parent p = butlast p"

definition suffix_of_name :: "string \<Rightarrow> string" where
  "suffix_of_name name =
     (case rfind_dot name of
        None \<Rightarrow> []
      | Some i \<Rightarrow> if 0 < i \<and> i < length name - 1 then drop i name else [])"

definition stem_of_name :: "string \<Rightarrow> string" where
  "stem_of_name name =
     (case rfind_dot name of
        None \<Rightarrow> name
      | Some i \<Rightarrow> if 0 < i \<and> i < length name - 1 then take i name else name)"

definition path_suffix :: "path \<Rightarrow> string" where
  "path_suffix p = suffix_of_name (path_name p)"

definition path_stem :: "path \<Rightarrow> string" where
  "path_stem p = stem_of_name (path_name p)"

section \<open>Module constants\<close>

text \<open>The two dictionaries, in the order of their literals (a \<open>dict\<close> iterates in that order).\<close>

definition DOCUMENT_TYPE_PATTERNS :: "(string \<times> string list) list" where
  "DOCUMENT_TYPE_PATTERNS =
     [(''Motion'', [''motion'', ''mtd'', ''mtc'', ''mts'', ''mtv'']),
      (''Response'', [''response'', ''opposition'', ''reply'', ''answer'']),
      (''Complaint'', [''complaint'', ''petition'', ''amended complaint'']),
      (''Order'', [''order'', ''ruling'', ''judgment'', ''decree'']),
      (''Notice'', [''notice'', ''notification'', ''noa'']),
      (''Evidence'', [''exhibit'', ''evidence'', ''attachment'', ''affidavit'']),
      (''Research'', [''memo'', ''research'', ''analysis'', ''brief''])]"

definition SUPPORTED_FILE_TYPES :: "(string \<times> string list) list" where
  "SUPPORTED_FILE_TYPES =
     [(''pdf'', [''.pdf'']),
      (''docx'', [''.docx'']),
      (''pptx'', [''.pptx'']),
      (''csv'', [''.csv'']),
      (''xlsx'', [''.xlsx'', ''.xls'']),
      (''txt'', [''.txt'']),
      (''md'', [''.md'', ''.markdown'']),
      (''image'', [''.jpg'', ''.jpeg'', ''.png'', ''.gif'', ''.bmp'', ''.tiff'', ''.tif'', ''.avif'']),
      (''audio'', [''.mp3'', ''.wav'', ''.m4a'', ''.ogg''])]"

section \<open>File type and document type detection\<close>

text \<open>
  \<open>_detect_file_type\<close>: the first category whose extension list holds the lower-cased
  suffix, \<open>unsupported\<close> when there is none.
\<close>

fun detect_in_table :: "(string \<times> string list) list \<Rightarrow> string \<Rightarrow> string" where
  "detect_in_table [] ext = ''unsupported''"
| "detect_in_table ((file_type, extensions) # rest) ext =
     (if ext \<in> set extensions then file_type else detect_in_table rest ext)"

definition detect_file_type :: "path \<Rightarrow> string" where
  "detect_file_type file_path = detect_in_table SUPPORTED_FILE_TYPES (lower (path_suffix file_path))"

text \<open>
  \<open>detect_document_type\<close>: the two nested loops return the first document type one of
  whose patterns occurs in the lower-cased stem; the fall-back is the stem itself.
\<close>

fun any_pattern_in :: "string list \<Rightarrow> string \<Rightarrow> bool" where
  "any_pattern_in [] filename_lower = False"
| "any_pattern_in (pattern # patterns) filename_lower =
     (if contains filename_lower pattern then True else any_pattern_in patterns filename_lower)"

fun match_document_type :: "(string \<times> string list) list \<Rightarrow> string \<Rightarrow> string option" where
  "match_document_type [] filename_lower = None"
| "match_document_type ((doc_type, patterns) # rest) filename_lower =
     (if any_pattern_in patterns filename_lower then Some doc_type
      else match_document_type rest filename_lower)"

definition detect_document_type :: "path \<Rightarrow> string" where
  "detect_document_type pdf_path =
     (let filename_lower = lower (path_stem pdf_path)
      in case match_document_type DOCUMENT_TYPE_PATTERNS filename_lower of
           Some doc_type \<Rightarrow> doc_type
         | None \<Rightarrow> path_stem pdf_path)"

section \<open>Centralized file names\<close>

text \<open>
  \<open>_sanitize_filename\<close>, step by step: \<open>filename.rsplit('.', 1)[0]\<close> when the name has a
  dot, \<open>lower()\<close>, \<open>re.sub(r'[^a-z0-9_-]', '_', name)\<close>, \<open>re.sub(r'_+', '_', name)\<close> and
  \<open>name[:200]\<close>.
\<close>

definition rsplit_dot_head :: "string \<Rightarrow> string" where
  "rsplit_dot_head filename =
     (if CHR ''.'' \<in> set filename
      then rev (tl (dropWhile (\<lambda>c. c \<noteq> CHR ''.'') (rev filename)))
      else filename)"

definition allowed_chars :: string where
  "allowed_chars = ''abcdefghijklmnopqrstuvwxyz0123456789_-''"

definition replace_special :: "string \<Rightarrow> string" where
  "replace_special name = map (\<lambda>c. if c \<in> set allowed_chars then c else CHR ''_'') name"

function collapse_underscores :: "string \<Rightarrow> string" where
  "collapse_underscores [] = []"
| "collapse_underscores (c # cs) =
     (if c = CHR ''_''
      then CHR ''_'' # collapse_underscores (dropWhile (\<lambda>d. d = CHR ''_'') cs)
      else c # collapse_underscores cs)"
  by pat_completeness auto
termination
  by (relation "measure length") (auto simp: length_dropWhile_le less_Suc_eq_le)

definition sanitize_filename :: "string \<Rightarrow> string" where
  "sanitize_filename filename =
     take 200 (collapse_underscores (replace_special (lower (rsplit_dot_head filename))))"

text \<open>The file name that \<open>_get_centralized_path\<close> tries at a given value of its counter.\<close>

definition candidate_name :: "string \<Rightarrow> string \<Rightarrow> nat \<Rightarrow> string" where
  "candidate_name base_name suffix counter =
     (if counter = 0 then base_name @ suffix
      else base_name @ ''_'' @ str_nat counter @ suffix)"

section \<open>OCR text with page markers\<close>

text \<open>
  The loop of \<open>extract_text_with_mistral\<close> over \<open>enumerate(ocr_response.pages)\<close>: two
  appends to \<open>extracted_text\<close> per page.
\<close>

fun page_loop :: "string \<Rightarrow> nat \<Rightarrow> string list \<Rightarrow> string" where
  "page_loop extracted_text i [] = extracted_text"
| "page_loop extracted_text i (page # pages) =
     page_loop ((extracted_text @ (''--- Page '' @ str_nat (i + 1) @ '' ---\<newline>''))
                  @ (page @ ''\<newline>\<newline>''))
               (i + 1) pages"

definition pages_text :: "string list \<Rightarrow> string" where
  "pages_text pages = page_loop [] 0 pages"

section \<open>The file system\<close>

text \<open>
  The file system is the only state of the pipeline. It is a list of directories and an
  association list from the paths of regular files to their contents. The content of a
  file is the sequence of its bytes, one \<^typ>\<open>char\<close> per byte. The order of the two
  lists is the order in which \<open>glob\<close> and \<open>iterdir\<close> enumerate. The root \<open>[]\<close> is
  always a directory. An operation that raises \<open>OSError\<close> returns \<open>None\<close>.

  One file is kept out of the model: \<open>documents/processing_log.txt\<close>, to which \<open>_log\<close>
  appends a line at every call and which the pipeline never reads. The calls of \<open>_log\<close>
  are left out of the functions below.
\<close>

record filesystem =
  fs_dirs :: "path list"
  fs_files :: "(path \<times> string) list"

definition is_dir :: "filesystem \<Rightarrow> path \<Rightarrow> bool" where
  "is_dir fs p = (p = [] \<or> p \<in> set (fs_dirs fs))"

definition is_file :: "filesystem \<Rightarrow> path \<Rightarrow> bool" where
  "is_file fs p = (p \<in> set (map fst (fs_files fs)))"

definition path_exists :: "filesystem \<Rightarrow> path \<Rightarrow> bool" where
  "path_exists fs p = (is_dir fs p \<or> is_file fs p)"

text \<open>The bytes of a file, as \<open>open(p, 'rb').read()\<close> or a library that opens \<open>p\<close> gets them.\<close>

definition read_bytes :: "filesystem \<Rightarrow> path \<Rightarrow> string option" where
  "read_bytes fs p = map_of (fs_files fs) p"

fun put_file :: "path \<Rightarrow> string \<Rightarrow> (path \<times> string) list \<Rightarrow> (path \<times> string) list" where
  "put_file p content [] = [(p, content)]"
| "put_file p content ((q, old) # rest) =
     (if q = p then (p, content) # rest else (q, old) # put_file p content rest)"

text \<open>
  Opening \<open>p\<close> for writing creates or truncates a file in an existing directory;
  \<open>write_bytes\<close> leaves the given bytes in it.
\<close>

definition write_bytes :: "filesystem \<Rightarrow> path \<Rightarrow> string \<Rightarrow> filesystem option" where
  "write_bytes fs p content =
     (if is_dir fs (path_parent p) \<and> \<not> is_dir fs p
      then Some (fs\<lparr>fs_files := put_file p content (fs_files fs)\<rparr>)
      else None)"

text \<open>\<open>p.mkdir(parents=True, exist_ok=True)\<close>: fails when \<open>p\<close> or an ancestor is a file.\<close>

definition ancestors_and_self :: "path \<Rightarrow> path list" where
  "ancestors_and_self p = map (\<lambda>n. take n p) [1 ..< Suc (length p)]"

definition mkdir_parents :: "filesystem \<Rightarrow> path \<Rightarrow> filesystem option" where
  "mkdir_parents fs p =
     (if \<exists>q \<in> set (ancestors_and_self p). is_file fs q then None
      else Some (fs\<lparr>fs_dirs := fs_dirs fs @ filter (\<lambda>q. \<not> is_dir fs q) (ancestors_and_self p)\<rparr>))"

text \<open>
  \<open>src.rename(dst)\<close> moves a file, or a directory with all that is below it. A regular
  file at \<open>dst\<close> is replaced; a directory at \<open>dst\<close> is reported as an error.
\<close>

definition rebase :: "path \<Rightarrow> path \<Rightarrow> path \<Rightarrow> path" where
  "rebase src dst q = (if take (length src) q = src then dst @ drop (length src) q else q)"

definition rename :: "filesystem \<Rightarrow> path \<Rightarrow> path \<Rightarrow> filesystem option" where
  "rename fs src dst =
     (if src = [] \<or> \<not> path_exists fs src \<or> \<not> is_dir fs (path_parent dst) \<or> is_dir fs dst
      then None
      else Some \<lparr>fs_dirs = map (rebase src dst) (fs_dirs fs),
                 fs_files = map (\<lambda>(q, content). (rebase src dst q, content))
                              (filter (\<lambda>(q, content). q \<noteq> dst) (fs_files fs))\<rparr>)"

text \<open>
  \<open>d.iterdir()\<close> and \<open>d.glob("*" + ext)\<close> for a literal extension. The entries that
  \<open>d.glob("*/")\<close> yields and that pass \<open>is_dir()\<close> are the directories among \<open>iterdir\<close>.
\<close>

definition iterdir :: "filesystem \<Rightarrow> path \<Rightarrow> path list" where
  "iterdir fs d = filter (\<lambda>q. q \<noteq> [] \<and> path_parent q = d) (fs_dirs fs @ map fst (fs_files fs))"

definition glob_suffix :: "filesystem \<Rightarrow> path \<Rightarrow> string \<Rightarrow> path list" where
  "glob_suffix fs d ext = filter (\<lambda>q. endswith (path_name q) ext) (iterdir fs d)"

section \<open>Records, errors and the environment\<close>

text \<open>
  The dictionaries that the phases pass around, with the keys the phases read. A key
  that a dictionary does not have is \<open>None\<close>. The entries \<open>metadata\<close> and \<open>token_stats\<close>
  and the entries that the exhibit phase adds to a document that has exhibits are not
  modelled.
\<close>

datatype err =
    Service string
  | OS_error path
  | Mistral_API_client_not_available
  | MISTRAL_API_KEY_not_found
  | Mistral_OCR_failed_after err
  | Mistral_OCR_failed err
  | Image_extraction_failed err
  | Audio_transcription_failed err
  | CSV_extraction_failed err
  | Excel_extraction_failed err
  | Plaintext_extraction_failed err
  | Unsupported_file_type string
  | Not_relative_to path path
  | No_text_extraction_found
  | Gemini_CLI_failed string
  | Gemini_failed string
  | Gemini_did_not_create_output_file
  | Gemini_timeout_after_3_attempts
  | Gemini_Interface_failed err
  | Unicode_decode_error
  | Unicode_encode_error
  | Value_error string
  | Key_error string

record doc =
  file_path :: "path option"
  pdf_path :: "path option"
  doc_folder :: "path option"
  doc_type :: "string option"
  success :: bool
  error :: "err option"
  extraction_method :: "string option"
  text_extracted :: "bool option"
  centralized_copy :: "path option"

definition empty_doc :: doc where
  "empty_doc = \<lparr>file_path = None, pdf_path = None, doc_folder = None, doc_type = None,
                 success = False, error = None, extraction_method = None,
                 text_extracted = None, centralized_copy = None\<rparr>"

text \<open>
  What one call of the \<open>gemini\<close> command line does: it returns with an exit code, its
  standard error and the fact whether \<open>document_summary.json\<close> exists afterwards, or
  \<open>subprocess.run\<close> raises \<open>TimeoutExpired\<close> or another exception.
\<close>

datatype cli_outcome =
    Completed int string bool
  | TimeoutExpired
  | Raised string

datatype vision_outcome =
    Vision_completed int string
  | Vision_raised

text \<open>
  The environment holds the configuration and the external services. A service is a
  function of the file it is called on and, where a caller could call it again, of the
  number of calls made before: the replies need not be the same.

  \<open>EXHIBIT_EXTRACTOR_AVAILABLE\<close> is set by the import of \<open>scripts.exhibit_extractor\<close> at
  the head of the module: \<open>True\<close> when the import succeeds, \<open>False\<close> in the branch
  \<open>except ImportError\<close>. The module is not among the sources; the two methods of its
  class \<open>ExhibitExtractor\<close> that the pipeline calls are parameters,
  \<open>should_extract_exhibits\<close> and \<open>extract_exhibits\<close>, the second with the file system
  it works on. \<open>cpu_count\<close> is the value of \<open>multiprocessing.cpu_count()\<close>.
\<close>

record env =
  documents_folder :: path
  intake_path :: path
  workspace_root :: path
  cpu_count :: nat
  MISTRAL_AVAILABLE :: bool
  MISTRAL_API_KEY :: "string option"
  ocr_process :: "path \<Rightarrow> nat \<Rightarrow> string + string list"
  gemini_vision :: "path \<Rightarrow> vision_outcome"
  audio_transcribe :: "path \<Rightarrow> nat \<Rightarrow> string + string \<times> string \<times> string"
  pandas_read_csv :: "string \<Rightarrow> string + nat \<times> nat \<times> string"
  pandas_read_excel :: "string \<Rightarrow> string + (string \<times> nat \<times> nat \<times> string) list"
  gemini_cli :: "path \<Rightarrow> nat \<Rightarrow> cli_outcome"
  gemini_interface :: "(path \<Rightarrow> string + bool) option"
  gemini_backend :: string
  EXHIBIT_EXTRACTOR_AVAILABLE :: bool
  exhibit_enabled :: bool
  exhibit_create_summaries :: bool
  should_extract_exhibits :: "string \<Rightarrow> bool"
  extract_exhibits ::
    "filesystem \<Rightarrow> path \<Rightarrow> path \<Rightarrow> path \<Rightarrow> string \<Rightarrow> string \<Rightarrow> (string + doc list) \<times> filesystem"

definition fte_folder :: "env \<Rightarrow> path" where
  "fte_folder env = documents_folder env @ [''full_text_extractions'']"

section \<open>Text files\<close>

text \<open>
  The text that the program reads from a file or writes to one is a Python \<open>str\<close> of
  any code points: a list of integers. \<open>code_points\<close> gives the code points of a
  string of the model.
\<close>

type_synonym unicode = "int list"

definition code_points :: "string \<Rightarrow> unicode" where
  "code_points s = map of_char s"

text \<open>
  The codec \<open>utf-8\<close> with the error handler \<open>strict\<close>, on the values of the bytes.
  Decoding refuses a byte that cannot start a sequence, a sequence that is cut short or
  continued by a byte outside \<open>0x80\<close> to \<open>0xBF\<close>, an encoding longer than needed, a
  surrogate and a code point above \<open>0x10FFFF\<close>. Encoding refuses a surrogate.
\<close>

definition continuation :: "int \<Rightarrow> bool" where
  "continuation b = (128 \<le> b \<and> b < 192)"

fun utf8_decode :: "int list \<Rightarrow> unicode option" where
  "utf8_decode [] = Some []"
| "utf8_decode (b # bs) =
     (if 0 \<le> b \<and> b < 128 then map_option (Cons b) (utf8_decode bs)
      else if 194 \<le> b \<and> b < 224 then
        (case bs of
           c # rest \<Rightarrow>
             if continuation c
             then map_option (Cons ((b - 192) * 64 + (c - 128))) (utf8_decode rest)
             else None
         | _ \<Rightarrow> None)
      else if 224 \<le> b \<and> b < 240 then
        (case bs of
           c # d # rest \<Rightarrow>
             if continuation c \<and> continuation d
                \<and> (if b = 224 then 160 \<le> c else if b = 237 then c < 160 else True)
             then map_option (Cons ((b - 224) * 4096 + (c - 128) * 64 + (d - 128)))
                    (utf8_decode rest)
             else None
         | _ \<Rightarrow> None)
      else if 240 \<le> b \<and> b < 245 then
        (case bs of
           c # d # e # rest \<Rightarrow>
             if continuation c \<and> continuation d \<and> continuation e
                \<and> (if b = 240 then 144 \<le> c else if b = 244 then c < 144 else True)
             then map_option
                    (Cons ((b - 240) * 262144 + (c - 128) * 4096 + (d - 128) * 64 + (e - 128)))
                    (utf8_decode rest)
             else None
         | _ \<Rightarrow> None)
      else None)"

definition utf8_encode_point :: "int \<Rightarrow> int list option" where
  "utf8_encode_point cp =
     (if cp < 0 then None
      else if cp < 128 then Some [cp]
      else if cp < 2048 then Some [192 + cp div 64, 128 + cp mod 64]
      else if 55296 \<le> cp \<and> cp < 57344 then None
      else if cp < 65536 then Some [224 + cp div 4096, 128 + cp div 64 mod 64, 128 + cp mod 64]
      else if cp < 1114112
        then Some [240 + cp div 262144, 128 + cp div 4096 mod 64, 128 + cp div 64 mod 64,
                   128 + cp mod 64]
      else None)"

fun utf8_encode :: "unicode \<Rightarrow> int list option" where
  "utf8_encode [] = Some []"
| "utf8_encode (cp # cps) =
     (case utf8_encode_point cp of
        None \<Rightarrow> None
      | Some bs \<Rightarrow> map_option (append bs) (utf8_encode cps))"

text \<open>
  A file opened in text mode with the default \<open>newline=None\<close>. On reading, a carriage
  return followed by a line feed, and a carriage return alone, become a line feed. On
  writing, a line feed becomes \<open>os.linesep\<close>; the platform of the model is POSIX, where
  that is the line feed itself.
\<close>

fun universal_newlines :: "unicode \<Rightarrow> unicode" where
  "universal_newlines (c # d # cs) =
     (if c = 13 \<and> d = 10 then 10 # universal_newlines cs
      else if c = 13 then 10 # universal_newlines (d # cs)
      else c # universal_newlines (d # cs))"
| "universal_newlines [c] = (if c = 13 then [10] else [c])"
| "universal_newlines [] = []"

text \<open>
  \<open>with open(p, 'r', encoding='utf-8') as f: content = f.read()\<close>: the bytes of the
  file are decoded, then the line ends are translated.
\<close>

definition read_text :: "filesystem \<Rightarrow> path \<Rightarrow> err + unicode" where
  "read_text fs p =
     (case read_bytes fs p of
        None \<Rightarrow> Inl (OS_error p)
      | Some data \<Rightarrow>
          (case utf8_decode (map of_char data) of
             None \<Rightarrow> Inl Unicode_decode_error
           | Some content \<Rightarrow> Inr (universal_newlines content)))"

text \<open>
  \<open>with open(p, 'w', encoding='utf-8') as f: f.write(content)\<close>: \<open>open\<close> creates or
  truncates the file, then \<open>write\<close> encodes the text; when the encoder refuses it the
  file stays empty. The result is the exception, if any, and the file system.
\<close>

definition write_text :: "filesystem \<Rightarrow> path \<Rightarrow> unicode \<Rightarrow> err option \<times> filesystem" where
  "write_text fs p content =
     (case write_bytes fs p [] of
        None \<Rightarrow> (Some (OS_error p), fs)
      | Some fs1 \<Rightarrow>
          (case utf8_encode content of
             None \<Rightarrow> (Some Unicode_encode_error, fs1)
           | Some data \<Rightarrow> (None, fs1\<lparr>fs_files := put_file p (map char_of data) (fs_files fs1)\<rparr>)))"

section \<open>The centralized text registry\<close>

text \<open>
  The \<open>while True\<close> loop of \<open>_get_centralized_path\<close> counts upwards until the candidate
  name is free. It terminates because the file system is finite and the candidates of
  different counters differ, which is shown first.
\<close>

lemma digit_inj:
  assumes "a < 10" and "b < 10" and eq: "''0123456789'' ! a = ''0123456789'' ! b"
  shows "a = b"
proof -
  have "distinct ''0123456789''" by simp
  moreover have "a < length ''0123456789''" and "b < length ''0123456789''"
    using assms by simp_all
  ultimately show "a = b" using eq by (simp only: nth_eq_iff_index_eq)
qed

lemma str_nat_not_Nil: "str_nat n \<noteq> []"
  by (subst str_nat.simps) simp

lemma str_nat_inj: "str_nat m = str_nat n \<Longrightarrow> m = n"
proof (induction m arbitrary: n rule: str_nat.induct)
  case (1 m)
  show ?case
  proof (cases "m < 10")
    case m: True
    show ?thesis
    proof (cases "n < 10")
      case True
      with m "1.prems" show ?thesis
        by (simp add: str_nat.simps [of m] str_nat.simps [of n] digit_inj)
    next
      case False
      with m "1.prems" str_nat_not_Nil [of "n div 10"] show ?thesis
        by (simp add: str_nat.simps [of m] str_nat.simps [of n])
    qed
  next
    case m: False
    show ?thesis
    proof (cases "n < 10")
      case True
      with m "1.prems" str_nat_not_Nil [of "m div 10"] show ?thesis
        by (simp add: str_nat.simps [of m] str_nat.simps [of n])
    next
      case False
      with m "1.prems" have eq: "str_nat (m div 10) = str_nat (n div 10)"
        and d: "''0123456789'' ! (m mod 10) = ''0123456789'' ! (n mod 10)"
        by (simp_all add: str_nat.simps [of m] str_nat.simps [of n])
      from "1.IH" [OF m eq] have "m div 10 = n div 10" .
      moreover from d have "m mod 10 = n mod 10"
        by (intro digit_inj) simp_all
      ultimately show ?thesis
        by (metis div_mult_mod_eq)
    qed
  qed
qed

lemma candidate_name_inj:
  "candidate_name base_name suffix c = candidate_name base_name suffix c' \<Longrightarrow> c = c'"
  by (auto simp: candidate_name_def str_nat_inj split: if_splits)

definition taken_counters :: "filesystem \<Rightarrow> path \<Rightarrow> string \<Rightarrow> string \<Rightarrow> nat \<Rightarrow> nat set" where
  "taken_counters fs folder base_name suffix counter =
     {c. counter \<le> c \<and> path_exists fs (folder @ [candidate_name base_name suffix c])}"

lemma finite_taken_counters: "finite (taken_counters fs folder base_name suffix counter)"
proof -
  let ?f = "\<lambda>c. folder @ [candidate_name base_name suffix c]"
  have "inj ?f"
    by (rule injI) (simp add: candidate_name_inj)
  have "finite {p. path_exists fs p}"
  proof -
    have "{p. path_exists fs p} \<subseteq> insert [] (set (fs_dirs fs) \<union> set (map fst (fs_files fs)))"
      by (auto simp: path_exists_def is_dir_def is_file_def)
    then show ?thesis by (rule finite_subset) simp
  qed
  then have "finite (?f -` {p. path_exists fs p})"
    using \<open>inj ?f\<close> by (rule finite_vimageI)
  moreover have "taken_counters fs folder base_name suffix counter \<subseteq> ?f -` {p. path_exists fs p}"
    by (auto simp: taken_counters_def)
  ultimately show ?thesis by (rule rev_finite_subset)
qed

function centralized_loop :: "filesystem \<Rightarrow> path \<Rightarrow> string \<Rightarrow> string \<Rightarrow> nat \<Rightarrow> path" where
  "centralized_loop fs folder base_name suffix counter =
     (let path = folder @ [candidate_name base_name suffix counter]
      in if \<not> path_exists fs path then path
         else centralized_loop fs folder base_name suffix (counter + 1))"
  by pat_completeness auto
termination
proof (relation "measure (\<lambda>(fs, folder, base_name, suffix, counter).
                   card (taken_counters fs folder base_name suffix counter))")
  show "wf (measure (\<lambda>(fs, folder, base_name, suffix, counter).
                   card (taken_counters fs folder base_name suffix counter)))"
    by simp
next
  fix fs :: filesystem and folder base_name suffix counter path
  assume "path = folder @ [candidate_name base_name suffix counter]"
    and "\<not> \<not> path_exists fs path"
  then have taken: "counter \<in> taken_counters fs folder base_name suffix counter"
    by (simp add: taken_counters_def)
  have "counter \<notin> taken_counters fs folder base_name suffix (counter + 1)"
    by (simp add: taken_counters_def)
  moreover have "taken_counters fs folder base_name suffix (counter + 1)
          \<subseteq> taken_counters fs folder base_name suffix counter"
    by (auto simp: taken_counters_def)
  ultimately have "taken_counters fs folder base_name suffix (counter + 1)
          \<subset> taken_counters fs folder base_name suffix counter"
    using taken by blast
  then have "card (taken_counters fs folder base_name suffix (counter + 1))
          < card (taken_counters fs folder base_name suffix counter)"
    by (rule psubset_card_mono [OF finite_taken_counters])
  then show "((fs, folder, base_name, suffix, counter + 1), (fs, folder, base_name, suffix, counter))
          \<in> measure (\<lambda>(fs, folder, base_name, suffix, counter).
                   card (taken_counters fs folder base_name suffix counter))"
    by simp
qed

declare centralized_loop.simps [simp del]

text \<open>
  \<open>_get_centralized_path\<close>: \<open>_create_centralized_extraction_folder\<close> makes the folder,
  then the loop starts at counter 0. The result is the path and the file system with the
  folder in it.
\<close>

definition get_centralized_path ::
  "env \<Rightarrow> filesystem \<Rightarrow> string \<Rightarrow> string \<Rightarrow> (err + path) \<times> filesystem" where
  "get_centralized_path env fs original_filename suffix =
     (case mkdir_parents fs (fte_folder env) of
        None \<Rightarrow> (Inl (OS_error (fte_folder env)), fs)
      | Some fs1 \<Rightarrow>
          (let base_name = sanitize_filename original_filename
           in (Inr (centralized_loop fs1 (fte_folder env) base_name suffix 0), fs1)))"

text \<open>
  The two statements under \<open># Copy to centralized folder\<close>, which every handler but
  the one for unsupported files has: ask for the path, then write the text to it. Here
  the text is a string of the model, as the five handlers that produce text make it.
\<close>

definition copy_to_centralized ::
  "env \<Rightarrow> filesystem \<Rightarrow> string \<Rightarrow> string \<Rightarrow> (err + path) \<times> filesystem" where
  "copy_to_centralized env fs original_filename content =
     (case get_centralized_path env fs original_filename ''.txt'' of
        (Inl e, fs1) \<Rightarrow> (Inl e, fs1)
      | (Inr centralized_path, fs1) \<Rightarrow>
          (case write_text fs1 centralized_path (code_points content) of
             (Some e, fs2) \<Rightarrow> (Inl e, fs2)
           | (None, fs2) \<Rightarrow> (Inr centralized_path, fs2)))"

section \<open>Extraction handlers\<close>

text \<open>
  \<open>extract_text_with_mistral\<close>: the two checks before the \<open>try\<close>, then the upload and the
  OCR request, which are one call of the service, then the page loop. Every exception
  inside the \<open>try\<close> is raised again as one error. Only the text of the result is kept.
\<close>

definition extract_text_with_mistral :: "env \<Rightarrow> filesystem \<Rightarrow> path \<Rightarrow> err + string" where
  "extract_text_with_mistral env fs pdf_file =
     (if \<not> MISTRAL_AVAILABLE env then Inl Mistral_API_client_not_available
      else if MISTRAL_API_KEY env = None \<or> MISTRAL_API_KEY env = Some [] then Inl MISTRAL_API_KEY_not_found
      else if \<not> is_file fs pdf_file then Inl (Mistral_OCR_failed_after (OS_error pdf_file))
      else case ocr_process env pdf_file 0 of
             Inl message \<Rightarrow> Inl (Mistral_OCR_failed_after (Service message))
           | Inr pages \<Rightarrow> Inr (pages_text pages))"

text \<open>
  The five handlers that produce text end with the same statements: write
  \<open>full_text_extraction.txt\<close> into the document folder, then copy the same text to the
  centralized folder.
\<close>

definition save_extraction ::
  "env \<Rightarrow> filesystem \<Rightarrow> path \<Rightarrow> path \<Rightarrow> string \<Rightarrow> (err + path) \<times> filesystem" where
  "save_extraction env fs file doc_dir text =
     (let text_file = doc_dir @ [''full_text_extraction.txt'']
      in case write_text fs text_file (code_points text) of
           (Some e, fs1) \<Rightarrow> (Inl e, fs1)
         | (None, fs1) \<Rightarrow> copy_to_centralized env fs1 (path_name file) text)"

definition extracted_doc :: "path \<Rightarrow> path \<Rightarrow> string \<Rightarrow> string \<Rightarrow> bool \<Rightarrow> path \<Rightarrow> doc" where
  "extracted_doc file doc_dir type method extracted centralized_path =
     empty_doc\<lparr>file_path := Some file, doc_folder := Some doc_dir, doc_type := Some type,
               success := True, extraction_method := Some method,
               text_extracted := Some extracted, centralized_copy := Some centralized_path\<rparr>"

definition extract_mistral_ocr ::
  "env \<Rightarrow> filesystem \<Rightarrow> path \<Rightarrow> path \<Rightarrow> (err + doc) \<times> filesystem" where
  "extract_mistral_ocr env fs file doc_dir =
     (let type = detect_document_type file
      in case extract_text_with_mistral env fs file of
           Inl e \<Rightarrow> (Inl (Mistral_OCR_failed e), fs)
         | Inr extracted_text \<Rightarrow>
             (case save_extraction env fs file doc_dir extracted_text of
                (Inl e, fs1) \<Rightarrow> (Inl (Mistral_OCR_failed e), fs1)
              | (Inr centralized_path, fs1) \<Rightarrow>
                  (Inr (extracted_doc file doc_dir type ''mistral_ocr'' True centralized_path), fs1)))"

text \<open>
  \<open>_get_gemini_vision_description\<close>: \<open>relative_to\<close> raises outside the \<open>try\<close>; a failed
  or raising call yields the placeholder text.
\<close>

definition relative_to :: "path \<Rightarrow> path \<Rightarrow> err + path" where
  "relative_to p root =
     (if take (length root) p = root then Inr (drop (length root) p) else Inl (Not_relative_to p root))"

definition get_gemini_vision_description :: "env \<Rightarrow> path \<Rightarrow> err + string" where
  "get_gemini_vision_description env image_path =
     (case relative_to image_path (workspace_root env) of
        Inl e \<Rightarrow> Inl e
      | Inr relative_image \<Rightarrow>
          (case gemini_vision env image_path of
             Vision_completed returncode stdout \<Rightarrow>
               if returncode = 0 then Inr (strip stdout) else Inr ''[Visual description unavailable]''
           | Vision_raised \<Rightarrow> Inr ''[Visual description unavailable]''))"

definition extract_image_hybrid ::
  "env \<Rightarrow> filesystem \<Rightarrow> path \<Rightarrow> path \<Rightarrow> (err + doc) \<times> filesystem" where
  "extract_image_hybrid env fs file doc_dir =
     (case extract_text_with_mistral env fs file of
        Inl e \<Rightarrow> (Inl (Image_extraction_failed e), fs)
      | Inr extracted_text \<Rightarrow>
          (case get_gemini_vision_description env file of
             Inl e \<Rightarrow> (Inl (Image_extraction_failed e), fs)
           | Inr visual_description \<Rightarrow>
               (let combined_content =
                      ''# Image Analysis: '' @ path_name file @ ''\<newline>\<newline>## Extracted Text (OCR)\<newline>''
                      @ (if strip extracted_text \<noteq> [] then extracted_text
                         else ''[No text detected in image]'')
                      @ ''\<newline>\<newline>## Visual Description\<newline>'' @ visual_description @ ''\<newline>''
                in case save_extraction env fs file doc_dir combined_content of
                     (Inl e, fs1) \<Rightarrow> (Inl (Image_extraction_failed e), fs1)
                   | (Inr centralized_path, fs1) \<Rightarrow>
                       (Inr (extracted_doc file doc_dir ''IMAGE'' ''hybrid_ocr_vision'' True
                               centralized_path), fs1))))"

definition extract_audio ::
  "env \<Rightarrow> filesystem \<Rightarrow> path \<Rightarrow> path \<Rightarrow> (err + doc) \<times> filesystem" where
  "extract_audio env fs file doc_dir =
     (if \<not> MISTRAL_AVAILABLE env then (Inl (Audio_transcription_failed Mistral_API_client_not_available), fs)
      else if MISTRAL_API_KEY env = None \<or> MISTRAL_API_KEY env = Some []
        then (Inl (Audio_transcription_failed MISTRAL_API_KEY_not_found), fs)
      else if \<not> is_file fs file then (Inl (Audio_transcription_failed (OS_error file)), fs)
      else case audio_transcribe env file 0 of
             Inl message \<Rightarrow> (Inl (Audio_transcription_failed (Service message)), fs)
           | Inr (model, language, text) \<Rightarrow>
               (let transcription_text =
                      ''# Audio Transcription: '' @ path_name file @ ''\<newline>\<newline>**Model:** '' @ model
                      @ ''\<newline>**Language:** '' @ language @ ''\<newline>\<newline>## Transcription\<newline>''
                      @ text @ ''\<newline>''
                in case save_extraction env fs file doc_dir transcription_text of
                     (Inl e, fs1) \<Rightarrow> (Inl (Audio_transcription_failed e), fs1)
                   | (Inr centralized_path, fs1) \<Rightarrow>
                       (Inr (extracted_doc file doc_dir ''AUDIO'' ''mistral_audio'' True
                               centralized_path), fs1)))"

text \<open>
  The two \<open>pandas\<close> handlers. The library is a function from the bytes of the file to
  the numbers of rows and columns and the rendered table (for a workbook, per sheet).
\<close>

definition extract_csv ::
  "env \<Rightarrow> filesystem \<Rightarrow> path \<Rightarrow> path \<Rightarrow> (err + doc) \<times> filesystem" where
  "extract_csv env fs file doc_dir =
     (case read_bytes fs file of
        None \<Rightarrow> (Inl (CSV_extraction_failed (OS_error file)), fs)
      | Some content \<Rightarrow>
          (case pandas_read_csv env content of
             Inl message \<Rightarrow> (Inl (CSV_extraction_failed (Service message)), fs)
           | Inr (rows, columns, table) \<Rightarrow>
               (let markdown_table =
                      ''# CSV Data: '' @ path_name file @ ''\<newline>\<newline>**Rows:** '' @ str_nat rows
                      @ ''\<newline>**Columns:** '' @ str_nat columns @ ''\<newline>\<newline>## Data\<newline>\<newline>''
                      @ table @ ''\<newline>''
                in case save_extraction env fs file doc_dir markdown_table of
                     (Inl e, fs1) \<Rightarrow> (Inl (CSV_extraction_failed e), fs1)
                   | (Inr centralized_path, fs1) \<Rightarrow>
                       (Inr (extracted_doc file doc_dir ''CSV'' ''pandas'' True centralized_path), fs1))))"

fun sheets_markdown :: "string \<Rightarrow> (string \<times> nat \<times> nat \<times> string) list \<Rightarrow> string" where
  "sheets_markdown markdown_content [] = markdown_content"
| "sheets_markdown markdown_content ((sheet_name, rows, columns, table) # sheets) =
     sheets_markdown
       ((((markdown_content @ (''## Sheet: '' @ sheet_name @ ''\<newline>\<newline>''))
          @ (''**Rows:** '' @ str_nat rows @ '' | **Columns:** '' @ str_nat columns @ ''\<newline>\<newline>''))
         @ table) @ ''\<newline>\<newline>---\<newline>\<newline>'')
       sheets"

definition extract_excel ::
  "env \<Rightarrow> filesystem \<Rightarrow> path \<Rightarrow> path \<Rightarrow> (err + doc) \<times> filesystem" where
  "extract_excel env fs file doc_dir =
     (case read_bytes fs file of
        None \<Rightarrow> (Inl (Excel_extraction_failed (OS_error file)), fs)
      | Some content \<Rightarrow>
          (case pandas_read_excel env content of
             Inl message \<Rightarrow> (Inl (Excel_extraction_failed (Service message)), fs)
           | Inr sheets \<Rightarrow>
               (let markdown_content =
                      sheets_markdown
                        ((''# Excel Data: '' @ path_name file @ ''\<newline>\<newline>'')
                         @ (''**Sheets:** '' @ str_nat (length sheets) @ ''\<newline>\<newline>''))
                        sheets
                in case save_extraction env fs file doc_dir markdown_content of
                     (Inl e, fs1) \<Rightarrow> (Inl (Excel_extraction_failed e), fs1)
                   | (Inr centralized_path, fs1) \<Rightarrow>
                       (Inr (extracted_doc file doc_dir ''EXCEL'' ''pandas'' True centralized_path), fs1))))"

text \<open>
  \<open>_extract_plaintext\<close> reads the file in text mode and writes what it has read to the
  centralized path, in text mode again; it writes nothing into the document folder.
  The document type is \<open>file_path.suffix[1:].upper()\<close>.
\<close>

definition upper_char :: "char \<Rightarrow> char" where
  "upper_char c = (case map_of (zip lower_letters upper_letters) c of Some u \<Rightarrow> u | None \<Rightarrow> c)"

definition upper :: "string \<Rightarrow> string" where
  "upper s = map upper_char s"

definition extract_plaintext ::
  "env \<Rightarrow> filesystem \<Rightarrow> path \<Rightarrow> path \<Rightarrow> (err + doc) \<times> filesystem" where
  "extract_plaintext env fs file doc_dir =
     (case read_text fs file of
        Inl e \<Rightarrow> (Inl (Plaintext_extraction_failed e), fs)
      | Inr content \<Rightarrow>
          (case get_centralized_path env fs (path_name file) ''.txt'' of
             (Inl e, fs1) \<Rightarrow> (Inl (Plaintext_extraction_failed e), fs1)
           | (Inr centralized_path, fs1) \<Rightarrow>
               (case write_text fs1 centralized_path content of
                  (Some e, fs2) \<Rightarrow> (Inl (Plaintext_extraction_failed e), fs2)
                | (None, fs2) \<Rightarrow>
                    (Inr (extracted_doc file doc_dir (upper (drop 1 (path_suffix file)))
                            ''direct_copy'' False centralized_path), fs2))))"

text \<open>\<open>_extract_unsupported\<close> returns a failed record; it does not raise.\<close>

definition extract_unsupported ::
  "env \<Rightarrow> filesystem \<Rightarrow> path \<Rightarrow> path \<Rightarrow> (err + doc) \<times> filesystem" where
  "extract_unsupported env fs file doc_dir =
     (Inr (empty_doc\<lparr>file_path := Some file, doc_folder := Some doc_dir,
                     doc_type := Some ''UNSUPPORTED'', success := False,
                     error := Some (Unsupported_file_type (path_suffix file))\<rparr>), fs)"

section \<open>Phase 1: the router and the batch\<close>

text \<open>
  \<open>_extract_single_document_router\<close>. The body of its \<open>try\<close> creates the document
  folder, moves the file into it unless a file of that name is already there, and calls
  the handler of the file type; \<open>except Exception\<close> turns every error into a failed
  record that names the intake path.
\<close>

definition handlers ::
  "(string \<times> (env \<Rightarrow> filesystem \<Rightarrow> path \<Rightarrow> path \<Rightarrow> (err + doc) \<times> filesystem)) list" where
  "handlers =
     [(''pdf'', extract_mistral_ocr),
      (''docx'', extract_mistral_ocr),
      (''pptx'', extract_mistral_ocr),
      (''image'', extract_image_hybrid),
      (''audio'', extract_audio),
      (''csv'', extract_csv),
      (''xlsx'', extract_excel),
      (''txt'', extract_plaintext),
      (''md'', extract_plaintext)]"

definition router_body :: "env \<Rightarrow> filesystem \<Rightarrow> path \<Rightarrow> (err + doc) \<times> filesystem" where
  "router_body env fs file =
     (let file_type = detect_file_type file;
          doc_dir = documents_folder env @ [path_stem file]
      in case mkdir_parents fs doc_dir of
           None \<Rightarrow> (Inl (OS_error doc_dir), fs)
         | Some fs1 \<Rightarrow>
             (let moved_file = doc_dir @ [path_name file]
              in case (if \<not> path_exists fs1 moved_file then rename fs1 file moved_file else Some fs1) of
                   None \<Rightarrow> (Inl (OS_error file), fs1)
                 | Some fs2 \<Rightarrow>
                     (case map_of handlers file_type of
                        Some handler \<Rightarrow> handler env fs2 moved_file doc_dir
                      | None \<Rightarrow> extract_unsupported env fs2 moved_file doc_dir)))"

definition extract_single_document_router :: "env \<Rightarrow> filesystem \<Rightarrow> path \<Rightarrow> doc \<times> filesystem" where
  "extract_single_document_router env fs file =
     (case router_body env fs file of
        (Inr result, fs1) \<Rightarrow> (result, fs1)
      | (Inl e, fs1) \<Rightarrow>
          (empty_doc\<lparr>file_path := Some file, success := False, error := Some e\<rparr>, fs1))"

text \<open>
  \<open>_discover_intake_files\<close>: one \<open>glob\<close> per extension of the table, then \<open>sorted\<close>.
\<close>

definition discover_intake_files :: "env \<Rightarrow> filesystem \<Rightarrow> path list" where
  "discover_intake_files env fs =
     sort (concat (map (\<lambda>(file_type, extensions).
                          concat (map (\<lambda>ext. glob_suffix fs (intake_path env) ext) extensions))
                       SUPPORTED_FILE_TYPES))"

text \<open>
  \<open>pool.map(self._extract_single_document_router, all_files)\<close>: one result per file, in
  the order of the files. The pool runs its workers side by side. The specification
  takes the items of a batch as independent of each other and names two workers that
  compute the same candidate name before either has written as a gap that it accepts;
  the model takes the workers one after the other, in the order of the files, on the
  shared file system.
\<close>

fun pool_map_router :: "env \<Rightarrow> filesystem \<Rightarrow> path list \<Rightarrow> doc list \<times> filesystem" where
  "pool_map_router env fs [] = ([], fs)"
| "pool_map_router env fs (file # files) =
     (case extract_single_document_router env fs file of
        (result, fs1) \<Rightarrow>
          (case pool_map_router env fs1 files of
             (results, fs2) \<Rightarrow> (result # results, fs2)))"

text \<open>
  \<open>phase_1_extract_all\<close> returns the successful records; the failed ones are logged.
  The record below keeps both lists, the number of worker processes with which \<open>Pool\<close>
  is called (\<open>None\<close> when it is not called), and the exception that leaves the phase
  (\<open>None\<close> when the phase returns). \<open>Pool(processes=0)\<close> raises \<open>ValueError\<close>.
\<close>

record phase_result =
  processes :: "nat option"
  successful :: "doc list"
  failed :: "doc list"
  raised :: "err option"

definition phase_1_extract_all :: "env \<Rightarrow> filesystem \<Rightarrow> phase_result \<times> filesystem" where
  "phase_1_extract_all env fs =
     (let all_files = discover_intake_files env fs
      in if all_files = []
         then (\<lparr>processes = None, successful = [], failed = [], raised = None\<rparr>, fs)
         else
           (let max_workers = min 10 (min (cpu_count env) (length all_files))
            in if max_workers < 1
               then (\<lparr>processes = Some max_workers, successful = [], failed = [],
                      raised = Some (Value_error ''Number of processes must be at least 1'')\<rparr>, fs)
               else case pool_map_router env fs all_files of
                      (results, fs1) \<Rightarrow>
                        (\<lparr>processes = Some max_workers,
                          successful = filter (\<lambda>r. success r) results,
                          failed = filter (\<lambda>r. \<not> success r) results,
                          raised = None\<rparr>, fs1)))"

section \<open>Phase 2: summary workers\<close>

text \<open>
  Both summary workers begin by locating the text: \<open>full_text_extraction.txt\<close> in the
  document folder, or the original file when that is plain text.
\<close>

definition locate_text_file :: "filesystem \<Rightarrow> doc \<Rightarrow> err + path \<times> path" where
  "locate_text_file fs doc_info =
     (case doc_folder doc_info of
        None \<Rightarrow> Inl (Key_error ''doc_folder'')
      | Some folder \<Rightarrow>
          (let text_file = folder @ [''full_text_extraction.txt'']
           in if path_exists fs text_file then Inr (folder, text_file)
              else case file_path doc_info of
                     None \<Rightarrow> Inl No_text_extraction_found
                   | Some original_file \<Rightarrow>
                       if lower (path_suffix original_file) \<in> set [''.txt'', ''.md'', ''.markdown'']
                       then Inr (folder, original_file)
                       else Inl No_text_extraction_found))"

definition file_ref :: "doc \<Rightarrow> path option" where
  "file_ref doc_info = (case file_path doc_info of Some f \<Rightarrow> Some f | None \<Rightarrow> pdf_path doc_info)"

text \<open>
  What a summary worker does with the outside world is kept as a trace: the calls of
  \<open>subprocess.run\<close>, numbered from 0, and the calls of \<open>time.sleep\<close> with their seconds,
  in the order they happen.
\<close>

datatype event = Run nat | Sleep nat

text \<open>
  \<open>_generate_summary_worker_static\<close>, the worker that \<open>phase_2_summarize_all\<close> hands to the
  pool: one call of the command line, every exception caught into a failed record. The
  summary file that the command line writes is not part of the model.
\<close>

definition generate_summary_worker_static :: "env \<Rightarrow> filesystem \<Rightarrow> doc \<Rightarrow> doc \<times> event list" where
  "generate_summary_worker_static env fs doc_info =
     (let body =
            (case locate_text_file fs doc_info of
               Inl e \<Rightarrow> (Inl e, [])
             | Inr (folder, text_file) \<Rightarrow>
                 (case relative_to text_file (workspace_root env) of
                    Inl e \<Rightarrow> (Inl e, [])
                  | Inr relative_text \<Rightarrow>
                      (case relative_to (folder @ [''document_summary.json'']) (workspace_root env) of
                         Inl e \<Rightarrow> (Inl e, [])
                       | Inr relative_output \<Rightarrow>
                           (case gemini_cli env folder 0 of
                              Completed returncode stderr output_exists \<Rightarrow>
                                (if returncode \<noteq> 0 then Inl (Gemini_CLI_failed stderr) else Inr (),
                                 [Run 0])
                            | TimeoutExpired \<Rightarrow> (Inl (Service ''TimeoutExpired''), [Run 0])
                            | Raised message \<Rightarrow> (Inl (Service message), [Run 0])))))
      in case body of
           (Inr u, trace) \<Rightarrow>
             (empty_doc\<lparr>file_path := file_ref doc_info, doc_folder := doc_folder doc_info,
                        doc_type := Some (case doc_type doc_info of Some t \<Rightarrow> t | None \<Rightarrow> ''Unknown''),
                        success := True\<rparr>, trace)
         | (Inl e, trace) \<Rightarrow>
             (empty_doc\<lparr>file_path := file_ref doc_info, doc_folder := doc_folder doc_info,
                        success := False, error := Some e\<rparr>, trace))"

text \<open>
  The \<open>for attempt in range(max_retries)\<close> loop of \<open>_generate_summary_sync\<close>. The
  first component of the result is the exception that leaves the loop, \<open>None\<close> when it
  ends at \<open>break\<close> or by exhaustion; the second is the trace.
\<close>

definition rate_limit_signal :: "string \<Rightarrow> bool" where
  "rate_limit_signal stderr = (contains (lower stderr) ''rate limit'' \<or> contains stderr ''429'')"

fun retry_loop ::
  "(nat \<Rightarrow> cli_outcome) \<Rightarrow> nat \<Rightarrow> nat list \<Rightarrow> event list \<Rightarrow> err option \<times> event list" where
  "retry_loop run max_retries [] trace = (None, trace)"
| "retry_loop run max_retries (attempt # rest) trace =
     (case run attempt of
        Completed returncode stderr output_exists \<Rightarrow>
          if returncode \<noteq> 0 then
            (if rate_limit_signal stderr then
               (if attempt < max_retries - 1
                then retry_loop run max_retries rest (trace @ [Run attempt, Sleep ((attempt + 1) * 2)])
                else (Some (Gemini_failed stderr), trace @ [Run attempt]))
             else (Some (Gemini_failed stderr), trace @ [Run attempt]))
          else if \<not> output_exists then (Some Gemini_did_not_create_output_file, trace @ [Run attempt])
          else (None, trace @ [Run attempt])
      | TimeoutExpired \<Rightarrow>
          if attempt < max_retries - 1
          then retry_loop run max_retries rest (trace @ [Run attempt])
          else (Some Gemini_timeout_after_3_attempts, trace @ [Run attempt])
      | Raised message \<Rightarrow> (Some (Service message), trace @ [Run attempt]))"

text \<open>
  \<open>_generate_summary_sync\<close>. The prompt of the command line names the two files
  relative to the workspace, so \<open>relative_to\<close> is called unless the interface is there
  with the \<open>api\<close> backend. With a \<open>GeminiInterface\<close> the call and its retries are the
  interface's; without one the loop above runs with \<open>max_retries = 3\<close>.
\<close>

definition generate_summary_sync :: "env \<Rightarrow> filesystem \<Rightarrow> doc \<Rightarrow> err option \<times> event list" where
  "generate_summary_sync env fs doc_info =
     (case locate_text_file fs doc_info of
        Inl e \<Rightarrow> (Some e, [])
      | Inr (folder, text_file) \<Rightarrow>
          (case (if gemini_interface env \<noteq> None \<and> gemini_backend env = ''api'' then Inr ()
                 else case relative_to text_file (workspace_root env) of
                        Inl e \<Rightarrow> Inl e
                      | Inr relative_text \<Rightarrow>
                          (case relative_to (folder @ [''document_summary.json'']) (workspace_root env) of
                             Inl e \<Rightarrow> Inl e
                           | Inr relative_output \<Rightarrow> Inr ())) of
             Inl e \<Rightarrow> (Some e, [])
           | Inr prompt \<Rightarrow>
               (case gemini_interface env of
                  Some generate_content \<Rightarrow>
                    (case generate_content folder of
                       Inl message \<Rightarrow> (Some (Gemini_Interface_failed (Service message)), [])
                     | Inr output_exists \<Rightarrow>
                         if \<not> output_exists
                         then (Some (Gemini_Interface_failed Gemini_did_not_create_output_file), [])
                         else (None, []))
                | None \<Rightarrow> retry_loop (gemini_cli env folder) 3 [0 ..< 3] [])))"

text \<open>
  \<open>phase_2_summarize_all\<close>; \<open>num_workers\<close> is 10 unless the caller passes another value.
  After the pool has returned, the loop that logs the failed summaries reads
  \<open>fail['pdf_path']\<close>, which raises \<open>KeyError\<close> for a record without that key.
\<close>

definition phase_2_summarize_all :: "env \<Rightarrow> filesystem \<Rightarrow> doc list \<Rightarrow> nat \<Rightarrow> phase_result" where
  "phase_2_summarize_all env fs extracted_docs num_workers =
     (if extracted_docs = []
      then \<lparr>processes = None, successful = [], failed = [], raised = None\<rparr>
      else
        (let pool_size = min num_workers (cpu_count env)
         in if pool_size < 1
            then \<lparr>processes = Some pool_size, successful = [], failed = [],
                  raised = Some (Value_error ''Number of processes must be at least 1'')\<rparr>
            else
              (let results = map (\<lambda>doc_info. fst (generate_summary_worker_static env fs doc_info))
                               extracted_docs
               in \<lparr>processes = Some pool_size,
                    successful = filter (\<lambda>r. success r) results,
                    failed = filter (\<lambda>r. \<not> success r) results,
                    raised = (if list_ex (\<lambda>fail. pdf_path fail = None)
                                   (filter (\<lambda>r. \<not> success r) results)
                              then Some (Key_error ''pdf_path'') else None)\<rparr>)))"

section \<open>The phase controller\<close>

text \<open>
  \<open>phase_1_5_extract_exhibits\<close> returns the empty list when the extractor module is
  absent or exhibit extraction is not enabled. Otherwise its first loop goes through the
  documents: it skips a document whose source file is not a PDF or that has no
  \<open>full_text_extraction.txt\<close>, and one whose type the extractor does not check; the
  exhibits that the extractor returns are collected, and an exception of the extractor
  is caught. Its second loop calls \<open>self._extract_pdf_mistral\<close> inside a \<open>try\<close>; the
  class has no such method, so every pass ends in the \<open>except\<close> branch and changes
  nothing. The records of the exhibits are made by the extractor: they are taken to be
  records like those of the documents.
\<close>

fun exhibits_loop ::
  "env \<Rightarrow> filesystem \<Rightarrow> doc list \<Rightarrow> doc list \<Rightarrow> (err + doc list) \<times> filesystem" where
  "exhibits_loop env fs [] all_exhibits = (Inr all_exhibits, fs)"
| "exhibits_loop env fs (doc_meta # rest) all_exhibits =
     (case doc_folder doc_meta of
        None \<Rightarrow> (Inl (Key_error ''doc_folder''), fs)
      | Some folder \<Rightarrow>
          (let full_text_path = folder @ [''full_text_extraction.txt''];
               original_pdf_path =
                 (case file_path doc_meta of
                    Some f \<Rightarrow> f
                  | None \<Rightarrow> (case pdf_path doc_meta of Some f \<Rightarrow> f | None \<Rightarrow> []));
               document_type = (case doc_type doc_meta of Some t \<Rightarrow> t | None \<Rightarrow> ''Unknown'');
               doc_id = path_name folder
           in if lower (path_suffix original_pdf_path) = ''.pdf'' \<and> path_exists fs full_text_path
                 \<and> should_extract_exhibits env document_type
              then (case extract_exhibits env fs folder full_text_path original_pdf_path
                           document_type doc_id of
                      (Inl message, fs1) \<Rightarrow> exhibits_loop env fs1 rest all_exhibits
                    | (Inr exhibits, fs1) \<Rightarrow> exhibits_loop env fs1 rest (all_exhibits @ exhibits))
              else exhibits_loop env fs rest all_exhibits))"

definition phase_1_5_extract_exhibits ::
  "env \<Rightarrow> filesystem \<Rightarrow> doc list \<Rightarrow> (err + doc list) \<times> filesystem" where
  "phase_1_5_extract_exhibits env fs extracted_docs =
     (if \<not> EXHIBIT_EXTRACTOR_AVAILABLE env then (Inr [], fs)
      else if \<not> exhibit_enabled env then (Inr [], fs)
      else exhibits_loop env fs extracted_docs [])"

text \<open>
  The argument with which \<open>run_all_phases\<close> calls \<open>phase_2_summarize_all\<close>; \<open>None\<close> when
  it does not call it: Phase 1 has extracted nothing, or an exception has left Phase 1
  or the exhibit phase.
\<close>

definition run_all_phases_phase_2_input :: "env \<Rightarrow> filesystem \<Rightarrow> doc list option \<times> filesystem" where
  "run_all_phases_phase_2_input env fs =
     (case phase_1_extract_all env fs of
        (extracted, fs1) \<Rightarrow>
          (let extracted_docs = successful extracted
           in if raised extracted \<noteq> None then (None, fs1)
              else if extracted_docs = [] then (None, fs1)
              else if exhibit_enabled env then
                (case phase_1_5_extract_exhibits env fs1 extracted_docs of
                   (Inl e, fs2) \<Rightarrow> (None, fs2)
                 | (Inr all_exhibits, fs2) \<Rightarrow>
                     if all_exhibits \<noteq> [] \<and> exhibit_create_summaries env
                     then (Some (extracted_docs @ all_exhibits), fs2)
                     else (Some extracted_docs, fs2))
              else (Some extracted_docs, fs1)))"

text \<open>
  \<open>_load_extracted_documents\<close>, with which \<open>run_phase("summarize")\<close> and
  \<open>resume_from_phase("summarize")\<close> build the argument of \<open>phase_2_summarize_all\<close>.
\<close>

fun load_extracted_loop :: "filesystem \<Rightarrow> path list \<Rightarrow> doc list \<Rightarrow> doc list" where
  "load_extracted_loop fs [] extracted_docs = extracted_docs"
| "load_extracted_loop fs (folder # folders) extracted_docs =
     (if \<not> is_dir fs folder then load_extracted_loop fs folders extracted_docs
      else
        (let text_file = folder @ [''full_text_extraction.txt'']
         in if path_exists fs text_file then
              (case glob_suffix fs folder ''.pdf'' of
                 [] \<Rightarrow> load_extracted_loop fs folders extracted_docs
               | pdf # others \<Rightarrow>
                   load_extracted_loop fs folders
                     (extracted_docs @
                        [empty_doc\<lparr>pdf_path := Some pdf, doc_folder := Some folder,
                                   doc_type := Some (path_name folder), success := True\<rparr>]))
            else load_extracted_loop fs folders extracted_docs))"

definition load_extracted_documents :: "env \<Rightarrow> filesystem \<Rightarrow> doc list" where
  "load_extracted_documents env fs = load_extracted_loop fs (iterdir fs (documents_folder env)) []"

section \<open>Code fences around a summary\<close>

text \<open>
  The cleaning that \<open>phase_3_synthesize_case_summary\<close> and \<open>_load_summarized_documents\<close>
  apply to the content of \<open>document_summary.json\<close> before \<open>json.loads\<close>.
\<close>

definition strip_code_fences :: "string \<Rightarrow> string" where
  "strip_code_fences text =
     (let content = strip text;
          content = (if startswith content ''```json'' then drop 7 content else content);
          content = (if startswith content ''```'' then drop 3 content else content);
          content = (if endswith content ''```'' then take (length content - 3) content else content)
      in strip content)"

section \<open>Notions used in the statements\<close>

text \<open>
  The wording of the specification: each page is the marker line, the content of the
  page and two line breaks.
\<close>

definition page_block :: "nat \<Rightarrow> string \<Rightarrow> string" where
  "page_block n content = ''--- Page '' @ str_nat n @ '' ---\<newline>'' @ content @ ''\<newline>\<newline>''"

text \<open>A string in which no two underscores are adjacent.\<close>

fun single_underscores :: "string \<Rightarrow> bool" where
  "single_underscores (c # d # cs) =
     (\<not> (c = CHR ''_'' \<and> d = CHR ''_'') \<and> single_underscores (d # cs))"
| "single_underscores cs = True"

text \<open>
  \<open>json.loads\<close> is not part of the program. What is used of it is that white space
  around a JSON text is insignificant; the white space of JSON is space, tab, line feed
  and carriage return. A JSON text begins with one of \<open>{ [ " -\<close>, a digit or the first
  letter of \<open>true\<close>, \<open>false\<close>, \<open>null\<close>, and ends with one of \<open>} ] "\<close>, a digit or the last
  letter of these words.
\<close>

definition json_ws :: "char \<Rightarrow> bool" where
  "json_ws c = (c \<in> set [CHR 0x20, CHR 0x09, CHR 0x0A, CHR 0x0D])"

definition json_trim :: "string \<Rightarrow> string" where
  "json_trim s = rev (dropWhile json_ws (rev (dropWhile json_ws s)))"

definition json_first :: "char \<Rightarrow> bool" where
  "json_first c = (c \<in> set (CHR 0x22 # ''{[-0123456789tfn''))"

definition json_last :: "char \<Rightarrow> bool" where
  "json_last c = (c \<in> set (CHR 0x22 # ''}]0123456789el''))"

definition json_shaped :: "string \<Rightarrow> bool" where
  "json_shaped s = (json_trim s \<noteq> [] \<and> json_first (hd (json_trim s)) \<and> json_last (last (json_trim s)))"

text \<open>
  The outcomes of one call, in the words of the retry policy: a rate-limit failure, a
  transient failure (rate limit or timeout), the pause that follows an attempt, and the
  error with which an outcome ends the loop (\<open>None\<close> for success).
\<close>

definition rate_limited :: "cli_outcome \<Rightarrow> bool" where
  "rate_limited outcome =
     (case outcome of
        Completed returncode stderr output_exists \<Rightarrow> returncode \<noteq> 0 \<and> rate_limit_signal stderr
      | TimeoutExpired \<Rightarrow> False
      | Raised message \<Rightarrow> False)"

definition transient :: "cli_outcome \<Rightarrow> bool" where
  "transient outcome = (rate_limited outcome \<or> outcome = TimeoutExpired)"

definition backoff :: "nat \<Rightarrow> cli_outcome \<Rightarrow> event list" where
  "backoff attempt outcome = (if rate_limited outcome then [Sleep (2 * (attempt + 1))] else [])"

definition failure :: "cli_outcome \<Rightarrow> err option" where
  "failure outcome =
     (case outcome of
        Completed returncode stderr output_exists \<Rightarrow>
          if returncode \<noteq> 0 then Some (Gemini_failed stderr)
          else if \<not> output_exists then Some Gemini_did_not_create_output_file
          else None
      | TimeoutExpired \<Rightarrow> Some Gemini_timeout_after_3_attempts
      | Raised message \<Rightarrow> Some (Service message))"

text \<open>
  Repeated calls of the registry: \<open>register_all\<close> copies a list of file names with
  their texts to the centralized folder, one after the other, and returns the paths in
  the order of the calls. It stops at the first copy that fails.
\<close>

fun register_all :: "env \<Rightarrow> filesystem \<Rightarrow> (string \<times> string) list \<Rightarrow> path list \<times> filesystem" where
  "register_all env fs [] = ([], fs)"
| "register_all env fs ((original_filename, content) # rest) =
     (case copy_to_centralized env fs original_filename content of
        (Inl e, fs1) \<Rightarrow> ([], fs1)
      | (Inr p, fs1) \<Rightarrow>
          (case register_all env fs1 rest of
             (ps, fs2) \<Rightarrow> (p # ps, fs2)))"

section \<open>Example cases\<close>

text \<open>
  A case whose intake folder holds \<open>notice.pdf\<close>, \<open>data.csv\<close> and \<open>note.txt\<close>, on a
  machine with eight processors, with services that answer every call.
\<close>

definition example_env :: env where
  "example_env =
     \<lparr>documents_folder = [''case'', ''documents''],
      intake_path = [''case'', ''Intake''],
      workspace_root = [],
      cpu_count = 8,
      MISTRAL_AVAILABLE = True,
      MISTRAL_API_KEY = Some ''key'',
      ocr_process = (\<lambda>p n. Inr [''A'', ''B'', ''C'']),
      gemini_vision = (\<lambda>p. Vision_raised),
      audio_transcribe = (\<lambda>p n. Inl ''no audio service''),
      pandas_read_csv = (\<lambda>content. Inr (1, 2, ''| a | b |'')),
      pandas_read_excel = (\<lambda>content. Inl ''no workbook''),
      gemini_cli = (\<lambda>folder n. Completed 0 [] True),
      gemini_interface = None,
      gemini_backend = ''cli'',
      EXHIBIT_EXTRACTOR_AVAILABLE = False,
      exhibit_enabled = False,
      exhibit_create_summaries = False,
      should_extract_exhibits = (\<lambda>document_type. False),
      extract_exhibits =
        (\<lambda>fs document_folder full_text_path original_pdf_path document_type doc_id. (Inr [], fs))\<rparr>"

definition example_fs :: filesystem where
  "example_fs =
     \<lparr>fs_dirs = [[''case''], [''case'', ''Intake''], [''case'', ''documents'']],
      fs_files = [([''case'', ''Intake'', ''notice.pdf''], ''scan''),
                  ([''case'', ''Intake'', ''data.csv''], ''a,b''),
                  ([''case'', ''Intake'', ''note.txt''], ''hello'')]\<rparr>"

text \<open>A scanned document in its document folder, with a name that matches no pattern.\<close>

definition scan_fs :: filesystem where
  "scan_fs =
     \<lparr>fs_dirs = [[''case''], [''case'', ''documents''], [''case'', ''documents'', ''scan 0042'']],
      fs_files = [([''case'', ''documents'', ''scan 0042'', ''scan 0042.pdf''], ''scan'')]\<rparr>"

text \<open>The note of the example case after the router has moved it.\<close>

definition note_fs :: filesystem where
  "note_fs =
     \<lparr>fs_dirs = [[''case''], [''case'', ''documents''], [''case'', ''documents'', ''note'']],
      fs_files = [([''case'', ''documents'', ''note'', ''note.txt''], ''hello'')]\<rparr>"

text \<open>
  The example case with a command line that is rate limited at its first call and would
  answer the second, and the record of the note as Phase 1 returns it.
\<close>

definition limited_env :: env where
  "limited_env = example_env
     \<lparr>gemini_cli := (\<lambda>folder n. if n = 0 then Completed 1 ''429 Too Many Requests'' False
                                else Completed 0 [] True)\<rparr>"

definition note_doc :: doc where
  "note_doc = empty_doc
     \<lparr>file_path := Some [''case'', ''documents'', ''note'', ''note.txt''],
      doc_folder := Some [''case'', ''documents'', ''note''], success := True\<rparr>"

text \<open>
  The example case with a recording and a workbook added to the intake folder: five
  files, of which the two new ones fail, since the audio service and the workbook
  reader of the example refuse every call.
\<close>

definition five_fs :: filesystem where
  "five_fs =
     \<lparr>fs_dirs = [[''case''], [''case'', ''Intake''], [''case'', ''documents'']],
      fs_files = [([''case'', ''Intake'', ''notice.pdf''], ''scan''),
                  ([''case'', ''Intake'', ''data.csv''], ''a,b''),
                  ([''case'', ''Intake'', ''note.txt''], ''hello''),
                  ([''case'', ''Intake'', ''call.mp3''], ''sound''),
                  ([''case'', ''Intake'', ''book.xlsx''], ''cells'')]\<rparr>"

text \<open>
  A case whose intake folder holds two text files: \<open>letter.txt\<close> with the bytes of
  \<open>hello\<close> and \<open>world\<close>, each followed by a carriage return and a line feed, and
  \<open>cafe.txt\<close> with the four bytes of that word in Latin-1, which are not UTF-8.
\<close>

definition letter_bytes :: string where
  "letter_bytes = ''hello'' @ [CHR 0x0D, CHR 0x0A] @ ''world'' @ [CHR 0x0D, CHR 0x0A]"

definition text_fs :: filesystem where
  "text_fs =
     \<lparr>fs_dirs = [[''case''], [''case'', ''Intake''], [''case'', ''documents'']],
      fs_files = [([''case'', ''Intake'', ''letter.txt''], letter_bytes),
                  ([''case'', ''Intake'', ''cafe.txt''], [CHR ''c'', CHR ''a'', CHR ''f'', CHR 0xE9])]\<rparr>"

section \<open>Sanitized names\<close>

lemma replace_special_allowed: "set (replace_special s) \<subseteq> set allowed_chars"
  by (auto simp: replace_special_def allowed_chars_def)

lemma collapse_underscores_subset: "set (collapse_underscores s) \<subseteq> set s"
proof (induction s rule: collapse_underscores.induct)
  case 1
  then show ?case by simp
next
  case (2 c cs)
  show ?case
  proof (cases "c = CHR ''_''")
    case True
    have "set (dropWhile (\<lambda>d. d = CHR ''_'') cs) \<subseteq> set cs"
      by (rule set_dropWhileD [THEN subsetI])
    with 2(1) [OF True] True show ?thesis by auto
  next
    case False
    with 2(2) [OF False] show ?thesis by auto
  qed
qed

lemma sanitize_filename_allowed: "set (sanitize_filename filename) \<subseteq> set allowed_chars"
proof -
  have "set (sanitize_filename filename)
          \<subseteq> set (collapse_underscores (replace_special (lower (rsplit_dot_head filename))))"
    unfolding sanitize_filename_def by (rule set_take_subset)
  also have "\<dots> \<subseteq> set (replace_special (lower (rsplit_dot_head filename)))"
    by (rule collapse_underscores_subset)
  also have "\<dots> \<subseteq> set allowed_chars"
    by (rule replace_special_allowed)
  finally show ?thesis .
qed

lemma single_underscores_contains: "single_underscores s \<longleftrightarrow> \<not> contains s ''__''"
  by (induction s rule: single_underscores.induct) (auto simp: startswith_def)

lemma collapse_underscores_hd:
  "collapse_underscores s \<noteq> [] \<Longrightarrow> s \<noteq> [] \<and> hd (collapse_underscores s) = hd s"
  by (cases s) auto

lemma collapse_underscores_single: "single_underscores (collapse_underscores s)"
proof (induction s rule: collapse_underscores.induct)
  case 1
  then show ?case by simp
next
  case (2 c cs)
  show ?case
  proof (cases "c = CHR ''_''")
    case True
    let ?r = "dropWhile (\<lambda>d. d = CHR ''_'') cs"
    have ih: "single_underscores (collapse_underscores ?r)" using 2(1) [OF True] .
    show ?thesis
    proof (cases "collapse_underscores ?r")
      case Nil
      with True show ?thesis by simp
    next
      case (Cons d ds)
      then have "?r \<noteq> []" and "d = hd ?r"
        using collapse_underscores_hd [of ?r] by auto
      then have "d \<noteq> CHR ''_''"
        using hd_dropWhile [of "\<lambda>d. d = CHR ''_''" cs] by auto
      with ih Cons True show ?thesis by simp
    qed
  next
    case False
    with 2(2) [OF False] show ?thesis
      by (cases "collapse_underscores cs") auto
  qed
qed

lemma single_underscores_take: "single_underscores s \<Longrightarrow> single_underscores (take n s)"
proof (induction s arbitrary: n rule: single_underscores.induct)
  case (1 c d cs)
  show ?case
  proof (cases n)
    case 0
    then show ?thesis by simp
  next
    case (Suc m)
    show ?thesis
    proof (cases m)
      case 0
      with Suc show ?thesis by simp
    next
      case (Suc k)
      with 1 \<open>n = Suc m\<close> show ?thesis
        using "1.IH" [of "Suc k"] by simp
    qed
  qed
next
  case "2_1"
  then show ?case by simp
next
  case "2_2"
  then show ?case by (cases n) auto
qed

lemma rsplit_dot_head_ext:
  assumes "CHR ''.'' \<notin> set ext"
  shows "rsplit_dot_head (base @ ''.'' @ ext) = base"
proof -
  have "dropWhile (\<lambda>c. c \<noteq> CHR ''.'') (rev ext @ ''.'' @ rev base) = ''.'' @ rev base"
    using assms by (subst dropWhile_append2) auto
  then show ?thesis by (simp add: rsplit_dot_head_def)
qed

text \<open>
  C9. The first candidate name is the sanitized name followed by \<open>.txt\<close>. The sanitized
  name of \<open>base.ext\<close> is made from \<open>base\<close> alone (and from the whole name when it has no
  dot) by lower-casing, replacing, collapsing and cutting at 200 characters, in this
  order. It consists of the characters \<open>a-z\<close>, \<open>0-9\<close>, \<open>_\<close> and \<open>-\<close>, has at most 200 of
  them and no two adjacent underscores.
\<close>

theorem sanitized_candidate_name:
  "candidate_name (sanitize_filename filename) ''.txt'' 0 = sanitize_filename filename @ ''.txt''
   \<and> (CHR ''.'' \<notin> set ext \<longrightarrow>
        sanitize_filename (base @ ''.'' @ ext) =
          take 200 (collapse_underscores (replace_special (lower base))))
   \<and> (CHR ''.'' \<notin> set filename \<longrightarrow>
        sanitize_filename filename =
          take 200 (collapse_underscores (replace_special (lower filename))))
   \<and> list_all (\<lambda>c. c \<in> set ''abcdefghijklmnopqrstuvwxyz0123456789_-'') (sanitize_filename filename)
   \<and> length (sanitize_filename filename) \<le> 200
   \<and> \<not> contains (sanitize_filename filename) ''__''"
proof (intro conjI impI)
  show "candidate_name (sanitize_filename filename) ''.txt'' 0 = sanitize_filename filename @ ''.txt''"
    by (simp add: candidate_name_def)
  show "sanitize_filename (base @ ''.'' @ ext) =
          take 200 (collapse_underscores (replace_special (lower base)))"
    if "CHR ''.'' \<notin> set ext"
    using rsplit_dot_head_ext [OF that] by (simp add: sanitize_filename_def)
  show "sanitize_filename filename =
          take 200 (collapse_underscores (replace_special (lower filename)))"
    if "CHR ''.'' \<notin> set filename"
    using that by (simp add: sanitize_filename_def rsplit_dot_head_def)
  show "list_all (\<lambda>c. c \<in> set ''abcdefghijklmnopqrstuvwxyz0123456789_-'') (sanitize_filename filename)"
    using sanitize_filename_allowed [of filename]
    unfolding list_all_iff allowed_chars_def by blast
  show "length (sanitize_filename filename) \<le> 200"
    by (simp add: sanitize_filename_def)
  show "\<not> contains (sanitize_filename filename) ''__''"
    unfolding single_underscores_contains [symmetric] sanitize_filename_def
    by (intro single_underscores_take collapse_underscores_single)
qed

theorem sanitized_candidate_name_witness:
  "CHR ''.'' \<notin> set ''PDF'' \<and> CHR ''.'' \<notin> set ''README''
   \<and> candidate_name (sanitize_filename ''My  File (v2).PDF'') ''.txt'' 0 = ''my_file_v2_.txt''
   \<and> sanitize_filename (''My  File (v2)'' @ ''.'' @ ''PDF'') = ''my_file_v2_''
   \<and> sanitize_filename ''README'' = ''readme''
   \<and> length (sanitize_filename ''My  File (v2).PDF'') \<le> 200
   \<and> \<not> contains (sanitize_filename ''My  File (v2).PDF'') ''__''"
proof -
  have e1: "CHR ''.'' \<notin> set ''PDF''" and e2: "CHR ''.'' \<notin> set ''README''"
    by simp_all
  have v1: "take 200 (collapse_underscores (replace_special (lower ''My  File (v2)''))) = ''my_file_v2_''"
    by code_simp
  have v2: "take 200 (collapse_underscores (replace_special (lower ''README''))) = ''readme''"
    by code_simp
  have n: "''My  File (v2)'' @ ''.'' @ ''PDF'' = ''My  File (v2).PDF''"
    by simp
  show ?thesis
    using sanitized_candidate_name [of "''My  File (v2).PDF''" "''PDF''" "''My  File (v2)''"]
      sanitized_candidate_name [of "''README''" "''PDF''" "''My  File (v2)''"]
      e1 e2 v1 v2 n
    by (simp add: candidate_name_def startswith_def)
qed

section \<open>Document types from file names\<close>

lemma any_pattern_in_iff:
  "any_pattern_in patterns s \<longleftrightarrow> (\<exists>pattern \<in> set patterns. contains s pattern)"
  by (induction patterns) auto

lemma match_document_type_None:
  "match_document_type table s = None
     \<longleftrightarrow> (\<forall>(doc_type, patterns) \<in> set table. \<not> any_pattern_in patterns s)"
  by (induction table s rule: match_document_type.induct) auto

lemma extract_mistral_ocr_doc_type:
  assumes "extract_mistral_ocr env fs file doc_dir = (Inr result, fs')"
  shows "doc_type result = Some (detect_document_type file)"
  using assms
  by (auto simp: extract_mistral_ocr_def extracted_doc_def empty_doc_def Let_def
           split: sum.splits prod.splits)

text \<open>
  C10. When no pattern of the table occurs in the lower-cased stem of the file name,
  \<open>detect_document_type\<close> returns the stem itself, and this stem is the document type
  in the record that a successful OCR extraction returns.
\<close>

theorem detect_document_type_fallback:
  assumes "\<forall>(doc_type, patterns) \<in> set DOCUMENT_TYPE_PATTERNS.
             \<forall>pattern \<in> set patterns. \<not> contains (lower (path_stem file)) pattern"
  shows "detect_document_type file = path_stem file
         \<and> (\<forall>result fs'. extract_mistral_ocr env fs file doc_dir = (Inr result, fs')
                \<longrightarrow> doc_type result = Some (path_stem file))"
proof -
  have "match_document_type DOCUMENT_TYPE_PATTERNS (lower (path_stem file)) = None"
    unfolding match_document_type_None any_pattern_in_iff using assms by fastforce
  then have "detect_document_type file = path_stem file"
    by (simp add: detect_document_type_def)
  then show ?thesis
    using extract_mistral_ocr_doc_type by fastforce
qed

theorem detect_document_type_fallback_witness:
  "list_all (\<lambda>(doc_type, patterns).
       list_all (\<lambda>pattern.
         \<not> contains (lower (path_stem [''case'', ''documents'', ''scan 0042'', ''scan 0042.pdf''])) pattern)
         patterns) DOCUMENT_TYPE_PATTERNS
   \<and> detect_document_type [''case'', ''documents'', ''scan 0042'', ''scan 0042.pdf''] = ''scan 0042''
   \<and> \<not> isl (fst (extract_mistral_ocr example_env scan_fs
                     [''case'', ''documents'', ''scan 0042'', ''scan 0042.pdf'']
                     [''case'', ''documents'', ''scan 0042'']))
   \<and> doc_type (projr (fst (extract_mistral_ocr example_env scan_fs
                     [''case'', ''documents'', ''scan 0042'', ''scan 0042.pdf'']
                     [''case'', ''documents'', ''scan 0042''])))
       = Some ''scan 0042''"
proof -
  let ?file = "[''case'', ''documents'', ''scan 0042'', ''scan 0042.pdf'']"
  let ?run = "extract_mistral_ocr example_env scan_fs ?file [''case'', ''documents'', ''scan 0042'']"
  have h: "\<forall>(doc_type, patterns) \<in> set DOCUMENT_TYPE_PATTERNS.
             \<forall>pattern \<in> set patterns. \<not> contains (lower (path_stem ?file)) pattern"
    by code_simp
  have stem: "path_stem ?file = ''scan 0042''"
    by code_simp
  have ok: "\<not> isl (fst ?run)"
    by code_simp
  then have run: "?run = (Inr (projr (fst ?run)), snd ?run)"
    by (simp add: prod_eq_iff)
  from detect_document_type_fallback [OF h, of example_env scan_fs "[''case'', ''documents'', ''scan 0042'']"]
  have "detect_document_type ?file = path_stem ?file"
    and "doc_type (projr (fst ?run)) = Some (path_stem ?file)"
    using run by blast+
  moreover have "list_all (\<lambda>(doc_type, patterns).
       list_all (\<lambda>pattern. \<not> contains (lower (path_stem ?file)) pattern) patterns)
       DOCUMENT_TYPE_PATTERNS"
    using h unfolding list_all_iff by fast
  ultimately show ?thesis using ok stem by simp
qed

section \<open>Code fences and JSON\<close>

lemma json_ws_isspace: "json_ws c \<Longrightarrow> isspace c"
  by (auto simp: json_ws_def isspace_def)

lemma json_first_not_space: "json_first c \<Longrightarrow> \<not> isspace c \<and> c \<noteq> CHR 0x60"
  by (auto simp: json_first_def isspace_def)

lemma json_last_not_space: "json_last c \<Longrightarrow> \<not> isspace c \<and> c \<noteq> CHR 0x60"
  by (auto simp: json_last_def isspace_def)

lemma json_trim_decompose:
  "\<exists>a b. s = a @ json_trim s @ b \<and> list_all json_ws a \<and> list_all json_ws b"
proof -
  let ?a = "takeWhile json_ws s"
  let ?r = "dropWhile json_ws s"
  let ?b = "rev (takeWhile json_ws (rev ?r))"
  have "rev ?r = takeWhile json_ws (rev ?r) @ dropWhile json_ws (rev ?r)"
    by simp
  then have "?r = json_trim s @ ?b"
    unfolding json_trim_def by (metis rev_append rev_rev_ident)
  then have "s = ?a @ json_trim s @ ?b"
    by (metis takeWhile_dropWhile_id)
  moreover have "list_all json_ws ?a"
    unfolding list_all_iff by (auto dest: set_takeWhileD)
  moreover have "list_all json_ws ?b"
    unfolding list_all_iff by (auto dest: set_takeWhileD)
  ultimately show ?thesis by blast
qed

lemma strip_surrounded:
  assumes "list_all isspace a" and "list_all isspace b"
    and "body \<noteq> []" and "\<not> isspace (hd body)" and "\<not> isspace (last body)"
  shows "strip (a @ body @ b) = body"
proof -
  have l: "lstrip (a @ body @ b) = body @ b"
  proof -
    have "dropWhile isspace (a @ body @ b) = dropWhile isspace (body @ b)"
      using assms(1) by (intro dropWhile_append2) (simp add: list_all_iff)
    also have "\<dots> = body @ b"
      using assms(3,4) by (cases body) simp_all
    finally show ?thesis by (simp add: lstrip_def)
  qed
  have "dropWhile isspace (rev b @ rev body) = dropWhile isspace (rev body)"
    using assms(2) by (intro dropWhile_append2) (simp add: list_all_iff)
  also have "\<dots> = rev body"
    using assms(3,5) by (cases body rule: rev_cases) simp_all
  finally have "rstrip (body @ b) = body"
    by (simp add: rstrip_def)
  with l show ?thesis by (simp add: strip_def)
qed

lemma strip_solid:
  assumes "body \<noteq> []" and "\<not> isspace (hd body)" and "\<not> isspace (last body)"
  shows "strip body = body"
  using strip_surrounded [of "[]" "[]" body] assms by simp

lemma not_startswith_hd:
  assumes "s = [] \<or> hd s \<noteq> CHR 0x60"
  shows "\<not> startswith s ''```json''" and "\<not> startswith s ''```''"
  using assms by (cases s; auto simp: startswith_def)+

lemma not_endswith_last:
  assumes "s \<noteq> []" and "last s \<noteq> CHR 0x60"
  shows "\<not> endswith s ''```''"
proof
  assume "endswith s ''```''"
  then have "length ''```'' \<le> length s \<and> drop (length s - length ''```'') s = ''```''"
    by (simp only: endswith_def)
  moreover have "length ''```'' = 3"
    by simp
  ultimately have "drop (length s - 3) s = ''```''" and "3 \<le> length s"
    by (simp_all only:)
  then have "last (drop (length s - 3) s) = CHR 0x60"
    by simp
  moreover have "last (drop (length s - 3) s) = last s"
    using \<open>3 \<le> length s\<close> by (intro last_drop) simp
  ultimately show False using assms(2) by simp
qed

lemma strip_code_fences_steps:
  assumes "c0 = strip raw"
    and "c1 = (if startswith c0 ''```json'' then drop 7 c0 else c0)"
    and "c2 = (if startswith c1 ''```'' then drop 3 c1 else c1)"
    and "c3 = (if endswith c2 ''```'' then take (length c2 - 3) c2 else c2)"
  shows "strip_code_fences raw = strip c3"
  using assms by (simp add: strip_code_fences_def Let_def)

lemma strip_code_fences_unfenced:
  assumes "list_all isspace a" and "list_all isspace b"
    and "body \<noteq> []" and "\<not> isspace (hd body)" and "\<not> isspace (last body)"
    and "hd body \<noteq> CHR 0x60" and "last body \<noteq> CHR 0x60"
  shows "strip_code_fences (a @ body @ b) = body"
proof -
  have "strip (a @ body @ b) = body"
    using assms by (intro strip_surrounded)
  moreover have "\<not> startswith body ''```json''" and "\<not> startswith body ''```''"
    using assms(6) by (simp_all add: not_startswith_hd)
  moreover have "\<not> endswith body ''```''"
    using assms(3,7) by (rule not_endswith_last)
  ultimately have "strip_code_fences (a @ body @ b) = strip body"
    by (intro strip_code_fences_steps [where ?c0.0 = body and ?c1.0 = body and ?c2.0 = body])
      (simp_all only: if_False)
  moreover have "strip body = body"
    using assms(3-5) by (rule strip_solid)
  ultimately show ?thesis
    by simp
qed

lemma strip_code_fences_fenced:
  assumes "list_all isspace a" and "list_all isspace b"
    and "body \<noteq> []" and "\<not> isspace (hd body)" and "\<not> isspace (last body)"
    and "hd body \<noteq> CHR 0x60"
  shows "strip_code_fences (''```json'' @ a @ body @ b @ ''```'') = body"
proof -
  let ?inner = "a @ body @ b"
  let ?fenced = "''```json'' @ ?inner @ ''```''"
  have "\<not> isspace (CHR 0x60)"
    by (simp add: isspace_def)
  then have "strip ?fenced = ?fenced"
    by (intro strip_solid) simp_all
  moreover have "startswith ?fenced ''```json''"
    by (simp add: startswith_def)
  moreover have "drop 7 ?fenced = ?inner @ ''```''"
    by simp
  moreover have "\<not> startswith (?inner @ ''```'') ''```''"
  proof (rule not_startswith_hd)
    show "?inner @ ''```'' = [] \<or> hd (?inner @ ''```'') \<noteq> CHR 0x60"
    proof (cases a)
      case Nil
      with assms(3,6) show ?thesis by (cases body) simp_all
    next
      case (Cons c cs)
      with assms(1) have "isspace c" by simp
      then have "c \<noteq> CHR 0x60" by (auto simp: isspace_def)
      with Cons show ?thesis by simp
    qed
  qed
  moreover have "endswith (?inner @ ''```'') ''```''"
    by (simp add: endswith_def)
  moreover have "take (length (?inner @ ''```'') - 3) (?inner @ ''```'') = ?inner"
    by simp
  ultimately have "strip_code_fences ?fenced = strip ?inner"
    by (intro strip_code_fences_steps
          [where ?c0.0 = ?fenced and ?c1.0 = "?inner @ ''```''" and ?c2.0 = "?inner @ ''```''"])
      (simp_all only: if_True if_False)
  moreover have "strip ?inner = body"
    using assms(1-5) by (intro strip_surrounded)
  ultimately show ?thesis
    by simp
qed

text \<open>
  C7. For a parser that ignores the white space around a JSON text, and a text \<open>s\<close> of
  the shape of a JSON text: the cleaned content of \<open>s\<close> between the fences, with any
  white space between the fences and \<open>s\<close>, parses to what \<open>s\<close> parses to, and so does the
  cleaned content of \<open>s\<close> without fences.
\<close>

theorem fenced_summary_parses_alike:
  assumes ws: "\<And>u t v. list_all json_ws u \<Longrightarrow> list_all json_ws v \<Longrightarrow> loads (u @ t @ v) = loads t"
    and shaped: "json_shaped s"
    and gaps: "list_all isspace w1" "list_all isspace w2"
  shows "loads (strip_code_fences (''```json'' @ w1 @ s @ w2 @ ''```'')) = loads s
         \<and> loads (strip_code_fences s) = loads s"
proof -
  obtain a b where s: "s = a @ json_trim s @ b" and a: "list_all json_ws a" and b: "list_all json_ws b"
    using json_trim_decompose by blast
  let ?body = "json_trim s"
  have body: "?body \<noteq> []" "\<not> isspace (hd ?body)" "\<not> isspace (last ?body)"
    "hd ?body \<noteq> CHR 0x60" "last ?body \<noteq> CHR 0x60"
    using shaped json_first_not_space json_last_not_space by (auto simp: json_shaped_def)
  have a': "list_all isspace (w1 @ a)" and b': "list_all isspace (b @ w2)"
    using a b gaps json_ws_isspace by (auto simp: list_all_iff)
  have parse: "loads ?body = loads s"
    using ws [OF a b, of ?body] s by simp
  have "strip_code_fences (''```json'' @ (w1 @ a) @ ?body @ (b @ w2) @ ''```'') = ?body"
    using a' b' body(1-4) by (rule strip_code_fences_fenced)
  moreover have "''```json'' @ (w1 @ a) @ ?body @ (b @ w2) @ ''```''
                   = ''```json'' @ w1 @ (a @ ?body @ b) @ w2 @ ''```''"
    by simp
  moreover have "a @ ?body @ b = s"
    using s by simp
  ultimately have fenced: "strip_code_fences (''```json'' @ w1 @ s @ w2 @ ''```'') = ?body"
    by (simp only:)
  have "list_all isspace a" and "list_all isspace b"
    using a b json_ws_isspace by (auto simp: list_all_iff)
  then have "strip_code_fences (a @ ?body @ b) = ?body"
    using body by (rule strip_code_fences_unfenced)
  then have unfenced: "strip_code_fences s = ?body"
    using s by simp
  show ?thesis
    using fenced unfenced parse by simp
qed

text \<open>
  The witness takes for the parser the function that removes all JSON white space from
  a text, and the text \<open> [1, 2]\<close> followed by a line feed.
\<close>

theorem fenced_summary_parses_alike_witness:
  "json_shaped '' [1, 2]\<newline>'' \<and> list_all isspace ''\<newline>''
   \<and> filter (\<lambda>c. \<not> json_ws c) (strip_code_fences (''```json'' @ ''\<newline>'' @ '' [1, 2]\<newline>'' @ ''\<newline>'' @ ''```''))
       = filter (\<lambda>c. \<not> json_ws c) '' [1, 2]\<newline>''
   \<and> filter (\<lambda>c. \<not> json_ws c) (strip_code_fences '' [1, 2]\<newline>'')
       = filter (\<lambda>c. \<not> json_ws c) '' [1, 2]\<newline>''
   \<and> strip_code_fences (''```json'' @ ''\<newline>'' @ '' [1, 2]\<newline>'' @ ''\<newline>'' @ ''```'') = ''[1, 2]''"
proof -
  have ws: "filter (\<lambda>c. \<not> json_ws c) (u @ t @ v) = filter (\<lambda>c. \<not> json_ws c) t"
    if "list_all json_ws u" and "list_all json_ws v" for u t v
    using that by (simp add: list_all_iff)
  have shaped: "json_shaped '' [1, 2]\<newline>''"
    by code_simp
  have gap: "list_all isspace ''\<newline>''"
    by code_simp
  have v: "strip_code_fences (''```json'' @ ''\<newline>'' @ '' [1, 2]\<newline>'' @ ''\<newline>'' @ ''```'') = ''[1, 2]''"
    by code_simp
  show ?thesis
    using fenced_summary_parses_alike [of "filter (\<lambda>c. \<not> json_ws c)", OF ws shaped gap gap]
      shaped gap v
    by simp
qed

section \<open>Sizes of the worker pools\<close>

text \<open>
  C3, as amended. For a batch of at least one file the extraction phase creates its
  pool with \<open>min(10, cpu_count(), n)\<close> processes, \<open>n\<close> the number of files. For at
  least one document the summarization phase creates its pool with
  \<open>min(num_workers, cpu_count())\<close> processes, whatever the number of documents. Neither
  phase creates a pool for an empty batch.
\<close>

theorem pool_sizes:
  "(discover_intake_files env fs \<noteq> [] \<longrightarrow>
      processes (fst (phase_1_extract_all env fs))
        = Some (min 10 (min (cpu_count env) (length (discover_intake_files env fs)))))
   \<and> (extracted_docs \<noteq> [] \<longrightarrow>
      processes (phase_2_summarize_all env fs extracted_docs num_workers)
        = Some (min num_workers (cpu_count env)))
   \<and> (discover_intake_files env fs = [] \<longrightarrow> processes (fst (phase_1_extract_all env fs)) = None)
   \<and> processes (phase_2_summarize_all env fs [] num_workers) = None"
  by (simp add: phase_1_extract_all_def phase_2_summarize_all_def Let_def split: prod.splits)

theorem pool_sizes_witness:
  "length (discover_intake_files example_env example_fs) = 3
   \<and> processes (fst (phase_1_extract_all example_env example_fs)) = Some 3
   \<and> length (successful (fst (phase_1_extract_all example_env example_fs))) = 3
   \<and> processes (phase_2_summarize_all example_env example_fs
                   (successful (fst (phase_1_extract_all example_env example_fs))) 10) = Some 8"
proof -
  have n: "length (discover_intake_files example_env example_fs) = 3"
    by code_simp
  have m: "length (successful (fst (phase_1_extract_all example_env example_fs))) = 3"
    by code_simp
  have c: "cpu_count example_env = 8"
    by (simp add: example_env_def)
  from n have files: "discover_intake_files example_env example_fs \<noteq> []"
    by auto
  from m have docs: "successful (fst (phase_1_extract_all example_env example_fs)) \<noteq> []"
    by auto
  from pool_sizes [of example_env example_fs
      "successful (fst (phase_1_extract_all example_env example_fs))" 10] files docs n c
  have "processes (fst (phase_1_extract_all example_env example_fs)) = Some 3"
    and "processes (phase_2_summarize_all example_env example_fs
                   (successful (fst (phase_1_extract_all example_env example_fs))) 10) = Some 8"
    by simp_all
  with n m show ?thesis by simp
qed

text \<open>
  The claim as stated fails for the summarization phase: on eight processors the pool
  for the three documents of the example case has eight processes, not three.
\<close>

theorem summary_pool_ignores_batch_size:
  "processes (phase_2_summarize_all example_env (snd (phase_1_extract_all example_env example_fs))
                (successful (fst (phase_1_extract_all example_env example_fs))) 10)
     \<noteq> Some (min 10 (min (cpu_count example_env)
                   (length (successful (fst (phase_1_extract_all example_env example_fs))))))"
  by code_simp

section \<open>Facts about the file system and the registry\<close>

lemma ancestors_and_self_length: "q \<in> set (ancestors_and_self d) \<Longrightarrow> length q \<le> length d"
  by (auto simp: ancestors_and_self_def)

lemma self_in_ancestors: "d \<noteq> [] \<Longrightarrow> d \<in> set (ancestors_and_self d)"
proof -
  assume "d \<noteq> []"
  then have "length d \<in> set [1 ..< Suc (length d)]"
    by (cases d) simp_all
  then have "take (length d) d \<in> (\<lambda>n. take n d) ` set [1 ..< Suc (length d)]"
    by (rule imageI)
  then show ?thesis by (simp add: ancestors_and_self_def)
qed

lemma child_not_ancestor: "d @ [x] \<notin> set (ancestors_and_self d)"
  using ancestors_and_self_length [of "d @ [x]" d] by auto

lemma mkdir_parents_Some_iff:
  "mkdir_parents fs d \<noteq> None \<longleftrightarrow> (\<forall>q \<in> set (ancestors_and_self d). \<not> is_file fs q)"
  by (simp add: mkdir_parents_def)

lemma mkdir_parents_files: "mkdir_parents fs d = Some fs1 \<Longrightarrow> fs_files fs1 = fs_files fs"
  by (auto simp: mkdir_parents_def split: if_splits)

lemma mkdir_parents_exists:
  "mkdir_parents fs d = Some fs1 \<Longrightarrow>
     path_exists fs1 q \<longleftrightarrow> path_exists fs q \<or> q \<in> set (ancestors_and_self d)"
  by (auto simp: mkdir_parents_def path_exists_def is_dir_def is_file_def split: if_splits)

lemma mkdir_parents_is_dir: "mkdir_parents fs d = Some fs1 \<Longrightarrow> is_dir fs1 d"
proof (cases "d = []")
  case True
  then show ?thesis by (simp add: is_dir_def)
next
  case False
  assume "mkdir_parents fs d = Some fs1"
  with self_in_ancestors [OF False] show ?thesis
    by (auto simp: mkdir_parents_def is_dir_def split: if_splits)
qed

lemma put_file_new: "p \<notin> fst ` set files \<Longrightarrow> put_file p content files = files @ [(p, content)]"
  by (induction files) auto

lemma put_file_last:
  "p \<notin> fst ` set files \<Longrightarrow> put_file p content (files @ [(p, old)]) = files @ [(p, content)]"
  by (induction files) auto

lemma map_of_put_file:
  "map_of (put_file p content files) q = (if q = p then Some content else map_of files q)"
  by (induction files) auto

lemma of_char_range: "0 \<le> (of_char c :: int)" "(of_char c :: int) < 256"
proof -
  have eq: "(of_char c :: int) = of_char c mod 256"
    by simp
  have "0 \<le> (of_char c :: int) mod 256"
    by (rule pos_mod_sign) simp
  with eq show "0 \<le> (of_char c :: int)"
    by simp
  have "(of_char c :: int) mod 256 < 256"
    by (rule pos_mod_bound) simp
  with eq show "(of_char c :: int) < 256"
    by simp
qed

text \<open>A string of the model can always be encoded.\<close>

lemma utf8_encode_code_points: "\<exists>data. utf8_encode (code_points s) = Some data"
proof (induction s)
  case Nil
  then show ?case by (simp add: code_points_def)
next
  case (Cons c s)
  then obtain data where "utf8_encode (code_points s) = Some data"
    by blast
  moreover have "\<exists>bs. utf8_encode_point (of_char c) = Some bs"
    using of_char_range [of c] by (simp add: utf8_encode_point_def)
  ultimately show ?case
    by (auto simp: code_points_def)
qed

lemma write_bytes_new:
  assumes "\<not> path_exists fs p" and "is_dir fs (path_parent p)"
  shows "write_bytes fs p content = Some (fs\<lparr>fs_files := fs_files fs @ [(p, content)]\<rparr>)"
proof -
  from assms(1) have "p \<notin> fst ` set (fs_files fs)" and "\<not> is_dir fs p"
    by (auto simp: path_exists_def is_file_def)
  with assms(2) show ?thesis
    by (simp add: write_bytes_def put_file_new)
qed

lemma write_text_new:
  assumes "\<not> path_exists fs p" and "is_dir fs (path_parent p)"
    and "utf8_encode content = Some data"
  shows "write_text fs p content = (None, fs\<lparr>fs_files := fs_files fs @ [(p, map char_of data)]\<rparr>)"
proof -
  from assms(1) have new: "p \<notin> fst ` set (fs_files fs)"
    by (auto simp: path_exists_def is_file_def)
  have "write_bytes fs p [] = Some (fs\<lparr>fs_files := fs_files fs @ [(p, [])]\<rparr>)"
    using assms(1,2) by (rule write_bytes_new)
  then show ?thesis
    using assms(3) new by (simp add: write_text_def put_file_last)
qed

lemma path_exists_appended:
  "path_exists (fs\<lparr>fs_files := fs_files fs @ [(p, content)]\<rparr>) q \<longleftrightarrow> path_exists fs q \<or> q = p"
  by (auto simp: path_exists_def is_dir_def is_file_def)

lemma is_file_appended:
  "is_file (fs\<lparr>fs_files := fs_files fs0 @ [(p, content)]\<rparr>) q \<longleftrightarrow> is_file fs0 q \<or> q = p"
  by (auto simp: is_file_def)

text \<open>What the counter loop returns: the first free candidate at or after its counter.\<close>

lemma centralized_loop_result:
  "\<exists>c \<ge> counter.
     centralized_loop fs folder base_name suffix counter = folder @ [candidate_name base_name suffix c]
     \<and> \<not> path_exists fs (folder @ [candidate_name base_name suffix c])
     \<and> (\<forall>k. counter \<le> k \<and> k < c \<longrightarrow> path_exists fs (folder @ [candidate_name base_name suffix k]))"
proof (induction fs folder base_name suffix counter rule: centralized_loop.induct)
  case (1 fs folder base_name suffix counter)
  show ?case
  proof (cases "path_exists fs (folder @ [candidate_name base_name suffix counter])")
    case False
    then have "centralized_loop fs folder base_name suffix counter
                 = folder @ [candidate_name base_name suffix counter]"
      by (subst centralized_loop.simps) simp
    with False show ?thesis
      by (intro exI [of _ counter]) auto
  next
    case True
    then have step: "centralized_loop fs folder base_name suffix counter
                 = centralized_loop fs folder base_name suffix (counter + 1)"
      by (subst centralized_loop.simps) simp
    from "1.IH" [OF refl] True obtain c where c: "counter + 1 \<le> c"
      "centralized_loop fs folder base_name suffix (counter + 1)
         = folder @ [candidate_name base_name suffix c]"
      "\<not> path_exists fs (folder @ [candidate_name base_name suffix c])"
      "\<forall>k. counter + 1 \<le> k \<and> k < c \<longrightarrow> path_exists fs (folder @ [candidate_name base_name suffix k])"
      by auto
    have "\<forall>k. counter \<le> k \<and> k < c \<longrightarrow> path_exists fs (folder @ [candidate_name base_name suffix k])"
    proof (intro allI impI)
      fix k assume k: "counter \<le> k \<and> k < c"
      show "path_exists fs (folder @ [candidate_name base_name suffix k])"
      proof (cases "k = counter")
        case True
        with \<open>path_exists fs (folder @ [candidate_name base_name suffix counter])\<close> show ?thesis
          by simp
      next
        case False
        with k c(4) show ?thesis by simp
      qed
    qed
    with c step show ?thesis
      by (intro exI [of _ c]) simp
  qed
qed

lemma centralized_loop_first_free:
  assumes "\<not> path_exists fs (folder @ [candidate_name base_name suffix c])"
    and "\<forall>k < c. path_exists fs (folder @ [candidate_name base_name suffix k])"
  shows "centralized_loop fs folder base_name suffix 0 = folder @ [candidate_name base_name suffix c]"
proof -
  obtain c' where c': "centralized_loop fs folder base_name suffix 0
        = folder @ [candidate_name base_name suffix c']"
      "\<not> path_exists fs (folder @ [candidate_name base_name suffix c'])"
      "\<forall>k. 0 \<le> k \<and> k < c' \<longrightarrow> path_exists fs (folder @ [candidate_name base_name suffix k])"
    using centralized_loop_result [of 0 fs folder base_name suffix] by blast
  have "c' = c"
  proof (rule ccontr)
    assume "c' \<noteq> c"
    then consider "c' < c" | "c < c'" by linarith
    then show False
    proof cases
      case 1
      with assms(2) c'(2) show False by simp
    next
      case 2
      with c'(3) assms(1) show False by simp
    qed
  qed
  with c'(1) show ?thesis by simp
qed

text \<open>
  A successful call of \<open>_get_centralized_path\<close> changes nothing but the directories on
  the way to the centralized folder, and returns a path in that folder that does not
  exist; writing to that path succeeds and adds one file.
\<close>

lemma get_centralized_path_result:
  assumes "get_centralized_path env fs original_filename suffix = (Inr p, fs1)"
  shows "mkdir_parents fs (fte_folder env) = Some fs1"
    and "\<exists>c. p = fte_folder env @ [candidate_name (sanitize_filename original_filename) suffix c]"
    and "\<not> path_exists fs1 p" and "\<not> path_exists fs p"
    and "is_dir fs1 (path_parent p)"
    and "utf8_encode content = Some data \<Longrightarrow>
           write_text fs1 p content = (None, fs1\<lparr>fs_files := fs_files fs @ [(p, map char_of data)]\<rparr>)"
proof -
  from assms show mk: "mkdir_parents fs (fte_folder env) = Some fs1"
    by (auto simp: get_centralized_path_def Let_def split: option.splits)
  from assms mk have p: "p = centralized_loop fs1 (fte_folder env) (sanitize_filename original_filename) suffix 0"
    by (auto simp: get_centralized_path_def Let_def)
  obtain c where c: "p = fte_folder env @ [candidate_name (sanitize_filename original_filename) suffix c]"
    "\<not> path_exists fs1 p"
    using centralized_loop_result [of 0 fs1 "fte_folder env" "sanitize_filename original_filename" suffix] p
    by auto
  from c(1) show "\<exists>c. p = fte_folder env @ [candidate_name (sanitize_filename original_filename) suffix c]"
    by blast
  from c(2) show "\<not> path_exists fs1 p" .
  from c(2) mkdir_parents_exists [OF mk] show "\<not> path_exists fs p"
    by simp
  from c(1) mkdir_parents_is_dir [OF mk] show dir: "is_dir fs1 (path_parent p)"
    by (simp add: path_parent_def)
  show "write_text fs1 p content = (None, fs1\<lparr>fs_files := fs_files fs @ [(p, map char_of data)]\<rparr>)"
    if "utf8_encode content = Some data"
    using write_text_new [OF c(2) dir that] mkdir_parents_files [OF mk] by simp
qed

lemma get_centralized_path_files:
  "get_centralized_path env fs original_filename suffix = (r, fs1) \<Longrightarrow> fs_files fs1 = fs_files fs"
  by (auto simp: get_centralized_path_def Let_def mkdir_parents_files split: option.splits)

text \<open>The copy to the centralized folder: what it returns, and when it succeeds.\<close>

lemma copy_to_centralized_result:
  assumes "copy_to_centralized env fs original_filename content = (Inr p, fs2)"
  shows "\<exists>c. p = fte_folder env @ [candidate_name (sanitize_filename original_filename) ''.txt'' c]"
    and "\<not> path_exists fs p"
    and "\<exists>data. utf8_encode (code_points content) = Some data
                \<and> fs_files fs2 = fs_files fs @ [(p, map char_of data)]"
    and "path_exists fs2 q \<longleftrightarrow>
           path_exists fs q \<or> q = p \<or> q \<in> set (ancestors_and_self (fte_folder env))"
proof -
  obtain data where data: "utf8_encode (code_points content) = Some data"
    using utf8_encode_code_points by blast
  from assms obtain fs1 where gp: "get_centralized_path env fs original_filename ''.txt'' = (Inr p, fs1)"
    by (cases "get_centralized_path env fs original_filename ''.txt''")
       (auto simp: copy_to_centralized_def split: sum.splits prod.splits option.splits)
  note facts = get_centralized_path_result [OF gp]
  from assms gp facts(6) [OF data]
  have fs2: "fs2 = fs1\<lparr>fs_files := fs_files fs @ [(p, map char_of data)]\<rparr>"
    by (simp add: copy_to_centralized_def)
  show "\<exists>c. p = fte_folder env @ [candidate_name (sanitize_filename original_filename) ''.txt'' c]"
    by (rule facts(2))
  show "\<not> path_exists fs p"
    by (rule facts(4))
  show "\<exists>data. utf8_encode (code_points content) = Some data
                \<and> fs_files fs2 = fs_files fs @ [(p, map char_of data)]"
    using data by (simp add: fs2)
  have "fs_files fs1 = fs_files fs"
    using facts(1) by (rule mkdir_parents_files)
  then have "fs2 = fs1\<lparr>fs_files := fs_files fs1 @ [(p, map char_of data)]\<rparr>"
    by (simp add: fs2)
  then have "path_exists fs2 q \<longleftrightarrow> path_exists fs1 q \<or> q = p"
    by (simp only: path_exists_appended)
  then show "path_exists fs2 q \<longleftrightarrow>
           path_exists fs q \<or> q = p \<or> q \<in> set (ancestors_and_self (fte_folder env))"
    using mkdir_parents_exists [OF facts(1), of q] by blast
qed

lemma copy_to_centralized_succeeds:
  assumes ok: "mkdir_parents fs (fte_folder env) \<noteq> None"
  shows "\<exists>p fs2. copy_to_centralized env fs original_filename content = (Inr p, fs2)
                  \<and> mkdir_parents fs2 (fte_folder env) \<noteq> None"
proof -
  obtain data where data: "utf8_encode (code_points content) = Some data"
    using utf8_encode_code_points by blast
  from ok obtain fs1 where mk: "mkdir_parents fs (fte_folder env) = Some fs1"
    by blast
  define p where "p = centralized_loop fs1 (fte_folder env) (sanitize_filename original_filename) ''.txt'' 0"
  have gp: "get_centralized_path env fs original_filename ''.txt'' = (Inr p, fs1)"
    using mk by (simp add: get_centralized_path_def p_def)
  note facts = get_centralized_path_result [OF gp]
  define fs2 where "fs2 = fs1\<lparr>fs_files := fs_files fs @ [(p, map char_of data)]\<rparr>"
  have run: "copy_to_centralized env fs original_filename content = (Inr p, fs2)"
    using gp facts(6) [OF data] by (simp add: copy_to_centralized_def fs2_def)
  obtain c where c: "p = fte_folder env @ [candidate_name (sanitize_filename original_filename) ''.txt'' c]"
    using facts(2) by blast
  have "\<not> is_file fs2 q" if "q \<in> set (ancestors_and_self (fte_folder env))" for q
  proof -
    from that ok have "\<not> is_file fs q"
      unfolding mkdir_parents_Some_iff by blast
    moreover from that c have "q \<noteq> p"
      using child_not_ancestor by blast
    ultimately show ?thesis
      by (simp add: fs2_def is_file_appended)
  qed
  then have "mkdir_parents fs2 (fte_folder env) \<noteq> None"
    unfolding mkdir_parents_Some_iff by blast
  with run show ?thesis by blast
qed

lemma copy_to_centralized_first_free:
  assumes ok: "mkdir_parents fs (fte_folder env) \<noteq> None"
    and free: "\<not> path_exists fs (fte_folder env @ [candidate_name (sanitize_filename n) ''.txt'' c])"
    and taken: "\<forall>k < c. path_exists fs (fte_folder env @ [candidate_name (sanitize_filename n) ''.txt'' k])"
  shows "\<exists>fs2. copy_to_centralized env fs n content
                 = (Inr (fte_folder env @ [candidate_name (sanitize_filename n) ''.txt'' c]), fs2)
               \<and> mkdir_parents fs2 (fte_folder env) \<noteq> None"
proof -
  let ?cand = "\<lambda>k. fte_folder env @ [candidate_name (sanitize_filename n) ''.txt'' k]"
  from copy_to_centralized_succeeds [OF ok, of n content]
  obtain p fs2 where run: "copy_to_centralized env fs n content = (Inr p, fs2)"
      and ok2: "mkdir_parents fs2 (fte_folder env) \<noteq> None"
    by blast
  from ok obtain fs1 where mk: "mkdir_parents fs (fte_folder env) = Some fs1"
    by blast
  have same: "path_exists fs1 (?cand k) \<longleftrightarrow> path_exists fs (?cand k)" for k
    using mkdir_parents_exists [OF mk, of "?cand k"] child_not_ancestor by blast
  have "centralized_loop fs1 (fte_folder env) (sanitize_filename n) ''.txt'' 0 = ?cand c"
    using free taken by (intro centralized_loop_first_free) (simp_all add: same)
  with run mk have "p = ?cand c"
    by (auto simp: copy_to_centralized_def get_centralized_path_def split: option.splits prod.splits)
  with run ok2 show ?thesis by blast
qed

section \<open>Repeated calls of the registry\<close>

lemma register_all_fresh:
  assumes "register_all env fs files = (ps, fs')"
  shows "distinct ps \<and> (\<forall>p \<in> set ps. \<not> path_exists fs p)"
  using assms
proof (induction files arbitrary: fs ps fs')
  case Nil
  then show ?case by simp
next
  case (Cons entry files)
  obtain original_filename content where entry: "entry = (original_filename, content)"
    by (cases entry)
  obtain r fs1 where copy: "copy_to_centralized env fs original_filename content = (r, fs1)"
    by (cases "copy_to_centralized env fs original_filename content")
  show ?case
  proof (cases r)
    case (Inl e)
    with copy Cons.prems entry show ?thesis by simp
  next
    case (Inr p)
    note run = copy [unfolded Inr]
    obtain ps' fs2 where rest: "register_all env fs1 files = (ps', fs2)"
      by (cases "register_all env fs1 files")
    with Cons.prems entry run have ps: "ps = p # ps'"
      by simp
    from Cons.IH [OF rest] have d: "distinct ps'" and fresh: "\<forall>q \<in> set ps'. \<not> path_exists fs1 q"
      by simp_all
    have mono: "path_exists fs1 q" if "path_exists fs q \<or> q = p" for q
      using that copy_to_centralized_result(4) [OF run, of q] by blast
    from fresh mono have "p \<notin> set ps'" and "\<forall>q \<in> set ps'. \<not> path_exists fs q"
      by blast+
    with d ps copy_to_centralized_result(2) [OF run] show ?thesis by simp
  qed
qed

lemma register_all_length:
  assumes "mkdir_parents fs (fte_folder env) \<noteq> None"
  shows "length (fst (register_all env fs files)) = length files"
  using assms
proof (induction files arbitrary: fs)
  case Nil
  then show ?case by simp
next
  case (Cons entry files)
  obtain original_filename content where entry: "entry = (original_filename, content)"
    by (cases entry)
  from copy_to_centralized_succeeds [OF Cons.prems, of original_filename content]
  obtain p fs1 where step: "copy_to_centralized env fs original_filename content = (Inr p, fs1)"
      "mkdir_parents fs1 (fte_folder env) \<noteq> None"
    by blast
  from Cons.IH [OF step(2)] have "length (fst (register_all env fs1 files)) = length files" .
  with step(1) entry show ?case
    by (cases "register_all env fs1 files") simp
qed

text \<open>A call returns the candidate of the first counter whose name is free.\<close>

lemma register_first_free:
  assumes ok: "mkdir_parents fs (fte_folder env) \<noteq> None"
    and free: "\<not> path_exists fs (fte_folder env @ [candidate_name (sanitize_filename n) ''.txt'' c])"
    and taken: "\<forall>k < c. path_exists fs (fte_folder env @ [candidate_name (sanitize_filename n) ''.txt'' k])"
  shows "\<exists>fs1.
           register_all env fs ((n, content) # rest)
             = ((fte_folder env @ [candidate_name (sanitize_filename n) ''.txt'' c])
                  # fst (register_all env fs1 rest), snd (register_all env fs1 rest))
           \<and> mkdir_parents fs1 (fte_folder env) \<noteq> None
           \<and> (\<forall>q. path_exists fs1 q \<longleftrightarrow>
                    path_exists fs q
                    \<or> q = fte_folder env @ [candidate_name (sanitize_filename n) ''.txt'' c]
                    \<or> q \<in> set (ancestors_and_self (fte_folder env)))"
proof -
  let ?p = "fte_folder env @ [candidate_name (sanitize_filename n) ''.txt'' c]"
  from copy_to_centralized_first_free [OF ok free taken, of content]
  obtain fs1 where run: "copy_to_centralized env fs n content = (Inr ?p, fs1)"
      and ok1: "mkdir_parents fs1 (fte_folder env) \<noteq> None"
    by blast
  have "register_all env fs ((n, content) # rest)
          = (?p # fst (register_all env fs1 rest), snd (register_all env fs1 rest))"
    using run by (cases "register_all env fs1 rest") simp
  moreover have "\<forall>q. path_exists fs1 q \<longleftrightarrow>
                    path_exists fs q \<or> q = ?p \<or> q \<in> set (ancestors_and_self (fte_folder env))"
    using copy_to_centralized_result(4) [OF run] by blast
  ultimately show ?thesis
    using ok1 by blast
qed

lemma get_centralized_path_first:
  assumes ok: "mkdir_parents fs (fte_folder env) \<noteq> None"
    and free: "\<not> path_exists fs (fte_folder env @ [sanitize_filename n @ ''.txt''])"
  shows "fst (get_centralized_path env fs n ''.txt'') = Inr (fte_folder env @ [sanitize_filename n @ ''.txt''])"
proof -
  from ok obtain fs1 where mk: "mkdir_parents fs (fte_folder env) = Some fs1"
    by blast
  have "\<not> path_exists fs1 (fte_folder env @ [candidate_name (sanitize_filename n) ''.txt'' 0])"
    using free mkdir_parents_exists [OF mk] child_not_ancestor
    by (simp add: candidate_name_def)
  then have "centralized_loop fs1 (fte_folder env) (sanitize_filename n) ''.txt'' 0
               = fte_folder env @ [candidate_name (sanitize_filename n) ''.txt'' 0]"
    by (intro centralized_loop_first_free) simp_all
  with mk show ?thesis
    by (simp add: get_centralized_path_def candidate_name_def)
qed

text \<open>
  C4. Calls of \<open>_get_centralized_path\<close>, each followed by the write of the returned
  path as in the handlers, return pairwise distinct paths, whatever the file names; when
  the centralized folder can be made every call returns a path. Three such calls with
  the same file name, in a folder where the sanitized name with \<open>.txt\<close>, \<open>_1.txt\<close> and
  \<open>_2.txt\<close> is free, return these three names in this order. In a folder where the first
  candidates of two file names are free, names with distinct sanitized base names get
  distinct paths.
\<close>

theorem centralized_paths_distinct:
  "distinct (fst (register_all env fs files))
   \<and> (mkdir_parents fs (fte_folder env) \<noteq> None \<longrightarrow>
        length (fst (register_all env fs files)) = length files)
   \<and> (mkdir_parents fs (fte_folder env) \<noteq> None
        \<and> \<not> path_exists fs (fte_folder env @ [sanitize_filename n @ ''.txt''])
        \<and> \<not> path_exists fs (fte_folder env @ [sanitize_filename n @ ''_1.txt''])
        \<and> \<not> path_exists fs (fte_folder env @ [sanitize_filename n @ ''_2.txt''])
        \<longrightarrow> fst (register_all env fs [(n, c1), (n, c2), (n, c3)])
              = [fte_folder env @ [sanitize_filename n @ ''.txt''],
                 fte_folder env @ [sanitize_filename n @ ''_1.txt''],
                 fte_folder env @ [sanitize_filename n @ ''_2.txt'']])
   \<and> (mkdir_parents fs (fte_folder env) \<noteq> None
        \<and> \<not> path_exists fs (fte_folder env @ [sanitize_filename n @ ''.txt''])
        \<and> \<not> path_exists fs (fte_folder env @ [sanitize_filename m @ ''.txt''])
        \<and> sanitize_filename n \<noteq> sanitize_filename m
        \<longrightarrow> fst (get_centralized_path env fs n ''.txt'') \<noteq> fst (get_centralized_path env fs m ''.txt''))"
proof (intro conjI impI)
  show "distinct (fst (register_all env fs files))"
    using register_all_fresh [of env fs files] by (cases "register_all env fs files") simp
  show "length (fst (register_all env fs files)) = length files"
    if "mkdir_parents fs (fte_folder env) \<noteq> None"
    using that by (rule register_all_length)
  show "fst (get_centralized_path env fs n ''.txt'') \<noteq> fst (get_centralized_path env fs m ''.txt'')"
    if "mkdir_parents fs (fte_folder env) \<noteq> None
        \<and> \<not> path_exists fs (fte_folder env @ [sanitize_filename n @ ''.txt''])
        \<and> \<not> path_exists fs (fte_folder env @ [sanitize_filename m @ ''.txt''])
        \<and> sanitize_filename n \<noteq> sanitize_filename m"
    using that get_centralized_path_first [of fs env n] get_centralized_path_first [of fs env m]
    by simp
  show "fst (register_all env fs [(n, c1), (n, c2), (n, c3)])
              = [fte_folder env @ [sanitize_filename n @ ''.txt''],
                 fte_folder env @ [sanitize_filename n @ ''_1.txt''],
                 fte_folder env @ [sanitize_filename n @ ''_2.txt'']]"
    if h: "mkdir_parents fs (fte_folder env) \<noteq> None
        \<and> \<not> path_exists fs (fte_folder env @ [sanitize_filename n @ ''.txt''])
        \<and> \<not> path_exists fs (fte_folder env @ [sanitize_filename n @ ''_1.txt''])
        \<and> \<not> path_exists fs (fte_folder env @ [sanitize_filename n @ ''_2.txt''])"
  proof -
    let ?cand = "\<lambda>k. fte_folder env @ [candidate_name (sanitize_filename n) ''.txt'' k]"
    have names: "?cand 0 = fte_folder env @ [sanitize_filename n @ ''.txt'']"
      "?cand 1 = fte_folder env @ [sanitize_filename n @ ''_1.txt'']"
      "?cand 2 = fte_folder env @ [sanitize_filename n @ ''_2.txt'']"
      by (simp_all add: candidate_name_def str_nat.simps)
    have differ: "candidate_name (sanitize_filename n) ''.txt'' j
                    = candidate_name (sanitize_filename n) ''.txt'' k \<longleftrightarrow> j = k" for j k
      using candidate_name_inj by auto
    have outside: "?cand k \<notin> set (ancestors_and_self (fte_folder env))" for k
      by (rule child_not_ancestor)
    from h names have free0: "\<not> path_exists fs (?cand 0)" "\<not> path_exists fs (?cand 1)"
      "\<not> path_exists fs (?cand 2)" and ok0: "mkdir_parents fs (fte_folder env) \<noteq> None"
      by simp_all
    from register_first_free [OF ok0, of n 0 c1 "[(n, c2), (n, c3)]"] free0(1)
    obtain fsa where a:
        "register_all env fs [(n, c1), (n, c2), (n, c3)]
           = (?cand 0 # fst (register_all env fsa [(n, c2), (n, c3)]),
              snd (register_all env fsa [(n, c2), (n, c3)]))"
        "mkdir_parents fsa (fte_folder env) \<noteq> None"
        "\<forall>q. path_exists fsa q \<longleftrightarrow>
               path_exists fs q \<or> q = ?cand 0 \<or> q \<in> set (ancestors_and_self (fte_folder env))"
      by auto
    have fa: "path_exists fsa (?cand 0)" "\<not> path_exists fsa (?cand 1)" "\<not> path_exists fsa (?cand 2)"
      using a(3) free0 outside by (simp_all add: differ)
    have "\<forall>k < 1. path_exists fsa (?cand k)"
      using fa(1) by simp
    from register_first_free [OF a(2) fa(2) this, of c2 "[(n, c3)]"]
    obtain fsb where b:
        "register_all env fsa [(n, c2), (n, c3)]
           = (?cand 1 # fst (register_all env fsb [(n, c3)]), snd (register_all env fsb [(n, c3)]))"
        "mkdir_parents fsb (fte_folder env) \<noteq> None"
        "\<forall>q. path_exists fsb q \<longleftrightarrow>
               path_exists fsa q \<or> q = ?cand 1 \<or> q \<in> set (ancestors_and_self (fte_folder env))"
      by auto
    have fb: "path_exists fsb (?cand 0)" "path_exists fsb (?cand 1)" "\<not> path_exists fsb (?cand 2)"
      using b(3) fa outside by (simp_all add: differ)
    have "\<forall>k < 2. path_exists fsb (?cand k)"
    proof (intro allI impI)
      fix k :: nat assume "k < 2"
      then have "k = 0 \<or> k = 1" by auto
      with fb show "path_exists fsb (?cand k)" by auto
    qed
    from register_first_free [OF b(2) fb(3) this, of c3 "[]"]
    obtain fsc where c:
        "register_all env fsb [(n, c3)]
           = (?cand 2 # fst (register_all env fsc []), snd (register_all env fsc []))"
      by auto
    from a(1) b(1) c have "fst (register_all env fs [(n, c1), (n, c2), (n, c3)])
        = [?cand 0, ?cand 1, ?cand 2]"
      by simp
    then show ?thesis
      by (simp only: names)
  qed
qed

theorem centralized_paths_distinct_witness:
  "mkdir_parents example_fs (fte_folder example_env) \<noteq> None
   \<and> \<not> path_exists example_fs (fte_folder example_env @ [sanitize_filename ''Notice.pdf'' @ ''.txt''])
   \<and> \<not> path_exists example_fs (fte_folder example_env @ [sanitize_filename ''Notice.pdf'' @ ''_1.txt''])
   \<and> \<not> path_exists example_fs (fte_folder example_env @ [sanitize_filename ''Notice.pdf'' @ ''_2.txt''])
   \<and> \<not> path_exists example_fs (fte_folder example_env @ [sanitize_filename ''data.csv'' @ ''.txt''])
   \<and> sanitize_filename ''Notice.pdf'' \<noteq> sanitize_filename ''data.csv''
   \<and> fst (register_all example_env example_fs
            [(''Notice.pdf'', ''a''), (''Notice.pdf'', ''b''), (''Notice.pdf'', ''c'')])
       = [[''case'', ''documents'', ''full_text_extractions'', ''notice.txt''],
          [''case'', ''documents'', ''full_text_extractions'', ''notice_1.txt''],
          [''case'', ''documents'', ''full_text_extractions'', ''notice_2.txt'']]
   \<and> distinct (fst (register_all example_env example_fs
            [(''Notice.pdf'', ''a''), (''Notice.pdf'', ''b''), (''Notice.pdf'', ''c'')]))
   \<and> length (fst (register_all example_env example_fs
            [(''Notice.pdf'', ''a''), (''Notice.pdf'', ''b''), (''Notice.pdf'', ''c'')])) = 3
   \<and> fst (get_centralized_path example_env example_fs ''Notice.pdf'' ''.txt'')
       \<noteq> fst (get_centralized_path example_env example_fs ''data.csv'' ''.txt'')"
proof -
  let ?files = "[(''Notice.pdf'', ''a''), (''Notice.pdf'', ''b''), (''Notice.pdf'', ''c'')]"
  have ok: "mkdir_parents example_fs (fte_folder example_env) \<noteq> None"
    by code_simp
  have free: "\<not> path_exists example_fs (fte_folder example_env @ [sanitize_filename ''Notice.pdf'' @ ''.txt''])"
    "\<not> path_exists example_fs (fte_folder example_env @ [sanitize_filename ''Notice.pdf'' @ ''_1.txt''])"
    "\<not> path_exists example_fs (fte_folder example_env @ [sanitize_filename ''Notice.pdf'' @ ''_2.txt''])"
    "\<not> path_exists example_fs (fte_folder example_env @ [sanitize_filename ''data.csv'' @ ''.txt''])"
    by code_simp+
  have bases: "sanitize_filename ''Notice.pdf'' \<noteq> sanitize_filename ''data.csv''"
    by code_simp
  have names: "fte_folder example_env @ [sanitize_filename ''Notice.pdf'' @ ''.txt'']
                 = [''case'', ''documents'', ''full_text_extractions'', ''notice.txt'']"
    "fte_folder example_env @ [sanitize_filename ''Notice.pdf'' @ ''_1.txt'']
                 = [''case'', ''documents'', ''full_text_extractions'', ''notice_1.txt'']"
    "fte_folder example_env @ [sanitize_filename ''Notice.pdf'' @ ''_2.txt'']
                 = [''case'', ''documents'', ''full_text_extractions'', ''notice_2.txt'']"
    by code_simp+
  note inst = centralized_paths_distinct
    [of example_env example_fs ?files "''Notice.pdf''" "''a''" "''b''" "''c''" "''data.csv''"]
  from inst ok free(1-3) have paths: "fst (register_all example_env example_fs ?files)
       = [fte_folder example_env @ [sanitize_filename ''Notice.pdf'' @ ''.txt''],
          fte_folder example_env @ [sanitize_filename ''Notice.pdf'' @ ''_1.txt''],
          fte_folder example_env @ [sanitize_filename ''Notice.pdf'' @ ''_2.txt'']]"
    by blast
  from inst have d: "distinct (fst (register_all example_env example_fs ?files))"
    by blast
  from inst ok have l: "length (fst (register_all example_env example_fs ?files)) = length ?files"
    by blast
  then have l3: "length (fst (register_all example_env example_fs ?files)) = 3"
    by simp
  from inst ok free(1,4) bases
  have two: "fst (get_centralized_path example_env example_fs ''Notice.pdf'' ''.txt'')
       \<noteq> fst (get_centralized_path example_env example_fs ''data.csv'' ''.txt'')"
    by blast
  from paths have paths': "fst (register_all example_env example_fs ?files)
       = [[''case'', ''documents'', ''full_text_extractions'', ''notice.txt''],
          [''case'', ''documents'', ''full_text_extractions'', ''notice_1.txt''],
          [''case'', ''documents'', ''full_text_extractions'', ''notice_2.txt'']]"
    by (simp only: names)
  show ?thesis
    by (intro conjI) (fact ok free bases paths' d l3 two)+
qed

section \<open>Page markers\<close>

lemma page_loop_concat:
  "page_loop acc i pages =
     acc @ concat (map (\<lambda>(n, content). page_block n content)
                      (zip [Suc i ..< Suc i + length pages] pages))"
proof (induction pages arbitrary: acc i)
  case Nil
  then show ?case by simp
next
  case (Cons page pages)
  have "[Suc i ..< Suc i + length (page # pages)]
          = Suc i # [Suc (Suc i) ..< Suc (Suc i) + length pages]"
    by (subst upt_conv_Cons) simp_all
  then show ?case
    using Cons.IH [of _ "Suc i"] by (simp add: page_block_def)
qed

text \<open>The text that the OCR function returns is the text of the pages the service sent.\<close>

lemma extract_text_with_mistral_pages:
  assumes "extract_text_with_mistral env fs pdf_file = Inr extracted_text"
  shows "\<exists>pages. ocr_process env pdf_file 0 = Inr pages \<and> extracted_text = pages_text pages"
  using assms by (auto simp: extract_text_with_mistral_def split: if_splits sum.splits)

text \<open>What the two \<open>write\<close> statements at the end of a handler leave in the two files.\<close>

lemma write_text_read:
  assumes "write_text fs p content = (None, fs1)"
  shows "\<exists>data. utf8_encode content = Some data \<and> read_bytes fs1 p = Some (map char_of data)"
  using assms
  by (auto simp: write_text_def read_bytes_def map_of_put_file split: option.splits)

lemma save_extraction_files:
  assumes "save_extraction env fs item doc_dir extracted_text = (Inr p, fs')"
  shows "\<exists>data. utf8_encode (code_points extracted_text) = Some data
               \<and> read_bytes fs' (doc_dir @ [''full_text_extraction.txt'']) = Some (map char_of data)
               \<and> read_bytes fs' p = Some (map char_of data)"
proof -
  let ?text_file = "doc_dir @ [''full_text_extraction.txt'']"
  obtain r fs1 where w: "write_text fs ?text_file (code_points extracted_text) = (r, fs1)"
    by (cases "write_text fs ?text_file (code_points extracted_text)")
  with assms have r: "r = None"
    and copy: "copy_to_centralized env fs1 (path_name item) extracted_text = (Inr p, fs')"
    by (auto simp: save_extraction_def Let_def split: option.splits)
  from write_text_read [OF w [unfolded r]] obtain data where
    data: "utf8_encode (code_points extracted_text) = Some data"
    and first: "read_bytes fs1 ?text_file = Some (map char_of data)"
    by blast
  from copy_to_centralized_result(3) [OF copy] data
  have files: "fs_files fs' = fs_files fs1 @ [(p, map char_of data)]"
    by auto
  have fresh: "\<not> is_file fs1 p"
    using copy_to_centralized_result(2) [OF copy] by (simp add: path_exists_def)
  then have "map_of (fs_files fs1) p = None"
    by (simp add: is_file_def map_of_eq_None_iff)
  then have "read_bytes fs' p = Some (map char_of data)"
    by (simp add: read_bytes_def files map_add_def)
  moreover have "read_bytes fs' ?text_file = Some (map char_of data)"
    using first by (simp add: read_bytes_def files map_add_def)
  ultimately show ?thesis
    using data by blast
qed

lemma extract_mistral_ocr_files:
  assumes "extract_mistral_ocr env fs item doc_dir = (Inr result, fs')"
  shows "\<exists>pages data p.
           ocr_process env item 0 = Inr pages
           \<and> utf8_encode (code_points (pages_text pages)) = Some data
           \<and> read_bytes fs' (doc_dir @ [''full_text_extraction.txt'']) = Some (map char_of data)
           \<and> centralized_copy result = Some p
           \<and> read_bytes fs' p = Some (map char_of data)"
proof -
  from assms obtain extracted_text where
    t: "extract_text_with_mistral env fs item = Inr extracted_text"
    by (cases "extract_text_with_mistral env fs item")
       (auto simp: extract_mistral_ocr_def Let_def)
  obtain r fs1 where s: "save_extraction env fs item doc_dir extracted_text = (r, fs1)"
    by (cases "save_extraction env fs item doc_dir extracted_text")
  with assms t obtain p where p: "r = Inr p" and fs1: "fs1 = fs'"
    and result: "result = extracted_doc item doc_dir (detect_document_type item) ''mistral_ocr'' True p"
    by (cases r) (auto simp: extract_mistral_ocr_def Let_def)
  from extract_text_with_mistral_pages [OF t] obtain pages where
    pages: "ocr_process env item 0 = Inr pages" "extracted_text = pages_text pages"
    by blast
  from save_extraction_files [OF s [unfolded p fs1]] pages(2) obtain data where
    "utf8_encode (code_points (pages_text pages)) = Some data"
    "read_bytes fs' (doc_dir @ [''full_text_extraction.txt'']) = Some (map char_of data)"
    "read_bytes fs' p = Some (map char_of data)"
    by blast
  moreover have "centralized_copy result = Some p"
    by (simp add: result extracted_doc_def empty_doc_def)
  ultimately show ?thesis
    using pages(1) by blast
qed

text \<open>
  C2. The text built from the OCR pages is the concatenation, in page order, of the
  blocks of the pages numbered from 1; for the pages A, B, C it is the text that the
  specification gives. \<open>extract_text_with_mistral\<close> returns this text of the pages that
  the service sends, whenever the client and its key are there and the file exists. A
  successful \<open>_extract_mistral_ocr\<close> leaves the UTF-8 bytes of this text in
  \<open>full_text_extraction.txt\<close> of the document folder and in the centralized copy.
\<close>

theorem pages_text_markers:
  "pages_text pages =
     concat (map (\<lambda>(n, content). page_block n content) (zip [1 ..< Suc (length pages)] pages))
   \<and> pages_text [''A'', ''B'', ''C''] =
       ''--- Page 1 ---\<newline>A\<newline>\<newline>--- Page 2 ---\<newline>B\<newline>\<newline>--- Page 3 ---\<newline>C\<newline>\<newline>''
   \<and> (MISTRAL_AVAILABLE env \<and> MISTRAL_API_KEY env = Some key \<and> key \<noteq> []
        \<and> is_file fs item \<and> ocr_process env item 0 = Inr pages
        \<longrightarrow> extract_text_with_mistral env fs item = Inr (pages_text pages))
   \<and> (extract_mistral_ocr env fs item doc_dir = (Inr result, fs')
        \<longrightarrow> (\<exists>sent data p.
               ocr_process env item 0 = Inr sent
               \<and> utf8_encode (code_points (pages_text sent)) = Some data
               \<and> read_bytes fs' (doc_dir @ [''full_text_extraction.txt'']) = Some (map char_of data)
               \<and> centralized_copy result = Some p
               \<and> read_bytes fs' p = Some (map char_of data)))"
proof (intro conjI impI)
  show "pages_text pages =
     concat (map (\<lambda>(n, content). page_block n content) (zip [1 ..< Suc (length pages)] pages))"
    using page_loop_concat [of "[]" 0 pages] by (simp add: pages_text_def)
  show "pages_text [''A'', ''B'', ''C''] =
       ''--- Page 1 ---\<newline>A\<newline>\<newline>--- Page 2 ---\<newline>B\<newline>\<newline>--- Page 3 ---\<newline>C\<newline>\<newline>''"
    by (simp add: pages_text_def str_nat.simps)
  show "extract_text_with_mistral env fs item = Inr (pages_text pages)"
    if "MISTRAL_AVAILABLE env \<and> MISTRAL_API_KEY env = Some key \<and> key \<noteq> []
        \<and> is_file fs item \<and> ocr_process env item 0 = Inr pages"
    using that by (simp add: extract_text_with_mistral_def)
  show "\<exists>sent data p.
               ocr_process env item 0 = Inr sent
               \<and> utf8_encode (code_points (pages_text sent)) = Some data
               \<and> read_bytes fs' (doc_dir @ [''full_text_extraction.txt'']) = Some (map char_of data)
               \<and> centralized_copy result = Some p
               \<and> read_bytes fs' p = Some (map char_of data)"
    if "extract_mistral_ocr env fs item doc_dir = (Inr result, fs')"
    using that by (rule extract_mistral_ocr_files)
qed

text \<open>
  The witness is the scanned document of the example, for which the service sends the
  pages A, B, C.
\<close>

theorem pages_text_markers_witness:
  "MISTRAL_AVAILABLE example_env \<and> MISTRAL_API_KEY example_env = Some ''key'' \<and> ''key'' \<noteq> []
   \<and> is_file scan_fs [''case'', ''documents'', ''scan 0042'', ''scan 0042.pdf'']
   \<and> ocr_process example_env [''case'', ''documents'', ''scan 0042'', ''scan 0042.pdf''] 0
       = Inr [''A'', ''B'', ''C'']
   \<and> extract_text_with_mistral example_env scan_fs [''case'', ''documents'', ''scan 0042'', ''scan 0042.pdf'']
       = Inr ''--- Page 1 ---\<newline>A\<newline>\<newline>--- Page 2 ---\<newline>B\<newline>\<newline>--- Page 3 ---\<newline>C\<newline>\<newline>''
   \<and> \<not> isl (fst (extract_mistral_ocr example_env scan_fs
                     [''case'', ''documents'', ''scan 0042'', ''scan 0042.pdf'']
                     [''case'', ''documents'', ''scan 0042'']))
   \<and> read_bytes (snd (extract_mistral_ocr example_env scan_fs
                     [''case'', ''documents'', ''scan 0042'', ''scan 0042.pdf'']
                     [''case'', ''documents'', ''scan 0042'']))
         [''case'', ''documents'', ''scan 0042'', ''full_text_extraction.txt'']
       = Some ''--- Page 1 ---\<newline>A\<newline>\<newline>--- Page 2 ---\<newline>B\<newline>\<newline>--- Page 3 ---\<newline>C\<newline>\<newline>''
   \<and> read_bytes (snd (extract_mistral_ocr example_env scan_fs
                     [''case'', ''documents'', ''scan 0042'', ''scan 0042.pdf'']
                     [''case'', ''documents'', ''scan 0042'']))
         [''case'', ''documents'', ''full_text_extractions'', ''scan_0042.txt'']
       = Some ''--- Page 1 ---\<newline>A\<newline>\<newline>--- Page 2 ---\<newline>B\<newline>\<newline>--- Page 3 ---\<newline>C\<newline>\<newline>''"
proof -
  let ?item = "[''case'', ''documents'', ''scan 0042'', ''scan 0042.pdf'']"
  let ?dir = "[''case'', ''documents'', ''scan 0042'']"
  let ?run = "extract_mistral_ocr example_env scan_fs ?item ?dir"
  let ?marked = "''--- Page 1 ---\<newline>A\<newline>\<newline>--- Page 2 ---\<newline>B\<newline>\<newline>--- Page 3 ---\<newline>C\<newline>\<newline>''"
  have env: "MISTRAL_AVAILABLE example_env" "MISTRAL_API_KEY example_env = Some ''key''"
    "ocr_process example_env ?item 0 = Inr [''A'', ''B'', ''C'']"
    by (simp_all add: example_env_def)
  have key: "''key'' \<noteq> []"
    by simp
  have there: "is_file scan_fs ?item"
    by code_simp
  have ok: "\<not> isl (fst ?run)"
    by code_simp
  then have run: "?run = (Inr (projr (fst ?run)), snd ?run)"
    by (simp add: prod_eq_iff)
  have copy: "centralized_copy (projr (fst ?run))
                = Some [''case'', ''documents'', ''full_text_extractions'', ''scan_0042.txt'']"
    by code_simp
  have bytes: "map_option (map char_of) (utf8_encode (code_points ?marked)) = Some ?marked"
    by code_simp
  note inst = pages_text_markers
    [of "[''A'', ''B'', ''C'']" example_env "''key''" scan_fs ?item ?dir "projr (fst ?run)" "snd ?run"]
  from inst have marked: "pages_text [''A'', ''B'', ''C''] = ?marked"
    by blast
  from inst env key there have returned: "extract_text_with_mistral example_env scan_fs ?item = Inr ?marked"
    using marked by simp
  from inst run obtain sent data p where facts:
    "ocr_process example_env ?item 0 = Inr sent"
    "utf8_encode (code_points (pages_text sent)) = Some data"
    "read_bytes (snd ?run) (?dir @ [''full_text_extraction.txt'']) = Some (map char_of data)"
    "centralized_copy (projr (fst ?run)) = Some p"
    "read_bytes (snd ?run) p = Some (map char_of data)"
    by blast
  from facts(1) env(3) have "sent = [''A'', ''B'', ''C'']"
    by simp
  with facts(2) marked bytes have data: "map char_of data = ?marked"
    by simp
  from facts(4) copy have p: "p = [''case'', ''documents'', ''full_text_extractions'', ''scan_0042.txt'']"
    by simp
  have first: "read_bytes (snd ?run) [''case'', ''documents'', ''scan 0042'', ''full_text_extraction.txt'']
                 = Some ?marked"
    using facts(3) data by simp
  have second: "read_bytes (snd ?run) [''case'', ''documents'', ''full_text_extractions'', ''scan_0042.txt'']
                 = Some ?marked"
    using facts(5) data p by simp
  show ?thesis
    by (intro conjI) (fact env key there returned ok first second)+
qed

section \<open>Plain text files\<close>

text \<open>
  C6 at the two text files of the example. The router moves \<open>letter.txt\<close> into its
  document folder, where it keeps its bytes, and \<open>_extract_plaintext\<close> succeeds; the
  centralized copy has a line feed where the file has a carriage return and a line
  feed, so the copy is not the content of the file. No \<open>full_text_extraction.txt\<close> is
  made in the document folder. \<open>cafe.txt\<close> is not UTF-8: its extraction fails at the
  read, and nothing is copied to the centralized folder, which is not even made.
\<close>

theorem plaintext_copy_changes_line_ends:
  "read_bytes text_fs [''case'', ''Intake'', ''letter.txt''] = Some letter_bytes
   \<and> detect_file_type [''case'', ''Intake'', ''letter.txt''] = ''txt''
   \<and> success (fst (extract_single_document_router example_env text_fs [''case'', ''Intake'', ''letter.txt'']))
   \<and> extraction_method (fst (extract_single_document_router example_env text_fs
                                [''case'', ''Intake'', ''letter.txt''])) = Some ''direct_copy''
   \<and> centralized_copy (fst (extract_single_document_router example_env text_fs
                               [''case'', ''Intake'', ''letter.txt'']))
       = Some [''case'', ''documents'', ''full_text_extractions'', ''letter.txt'']
   \<and> read_bytes (snd (extract_single_document_router example_env text_fs
                         [''case'', ''Intake'', ''letter.txt'']))
         [''case'', ''documents'', ''letter'', ''letter.txt'']
       = Some letter_bytes
   \<and> read_bytes (snd (extract_single_document_router example_env text_fs
                         [''case'', ''Intake'', ''letter.txt'']))
         [''case'', ''documents'', ''full_text_extractions'', ''letter.txt'']
       = Some ''hello\<newline>world\<newline>''
   \<and> ''hello\<newline>world\<newline>'' \<noteq> letter_bytes
   \<and> \<not> path_exists (snd (extract_single_document_router example_env text_fs
                            [''case'', ''Intake'', ''letter.txt'']))
           [''case'', ''documents'', ''letter'', ''full_text_extraction.txt'']
   \<and> detect_file_type [''case'', ''Intake'', ''cafe.txt''] = ''txt''
   \<and> \<not> success (fst (extract_single_document_router example_env text_fs [''case'', ''Intake'', ''cafe.txt'']))
   \<and> error (fst (extract_single_document_router example_env text_fs [''case'', ''Intake'', ''cafe.txt'']))
       = Some (Plaintext_extraction_failed Unicode_decode_error)
   \<and> \<not> path_exists (snd (extract_single_document_router example_env text_fs
                            [''case'', ''Intake'', ''cafe.txt'']))
           [''case'', ''documents'', ''full_text_extractions'']"
proof (intro conjI)
  let ?letter = "extract_single_document_router example_env text_fs [''case'', ''Intake'', ''letter.txt'']"
  let ?cafe = "extract_single_document_router example_env text_fs [''case'', ''Intake'', ''cafe.txt'']"
  show "read_bytes text_fs [''case'', ''Intake'', ''letter.txt''] = Some letter_bytes"
    by code_simp
  show "detect_file_type [''case'', ''Intake'', ''letter.txt''] = ''txt''"
    by code_simp
  show "success (fst ?letter)"
    by code_simp
  show "extraction_method (fst ?letter) = Some ''direct_copy''"
    by code_simp
  show "centralized_copy (fst ?letter)
          = Some [''case'', ''documents'', ''full_text_extractions'', ''letter.txt'']"
    by code_simp
  show "read_bytes (snd ?letter) [''case'', ''documents'', ''letter'', ''letter.txt''] = Some letter_bytes"
    by code_simp
  show "read_bytes (snd ?letter) [''case'', ''documents'', ''full_text_extractions'', ''letter.txt'']
          = Some ''hello\<newline>world\<newline>''"
    by code_simp
  show "''hello\<newline>world\<newline>'' \<noteq> letter_bytes"
    by code_simp
  show "\<not> path_exists (snd ?letter) [''case'', ''documents'', ''letter'', ''full_text_extraction.txt'']"
    by code_simp
  show "detect_file_type [''case'', ''Intake'', ''cafe.txt''] = ''txt''"
    by code_simp
  show "\<not> success (fst ?cafe)"
    by code_simp
  show "error (fst ?cafe) = Some (Plaintext_extraction_failed Unicode_decode_error)"
    by code_simp
  show "\<not> path_exists (snd ?cafe) [''case'', ''documents'', ''full_text_extractions'']"
    by code_simp
qed

section \<open>Retries of the summary call\<close>

lemma retry_loop_three:
  "retry_loop run 3 [0 ..< 3] [] =
     (if \<not> transient (run 0) then (failure (run 0), [Run 0])
      else if \<not> transient (run 1) then (failure (run 1), Run 0 # backoff 0 (run 0) @ [Run 1])
      else (failure (run 2), Run 0 # backoff 0 (run 0) @ Run 1 # backoff 1 (run 1) @ [Run 2]))"
proof -
  have range: "[0 ..< 3] = [0, 1, 2]"
    by (simp add: upt_rec)
  show ?thesis
    unfolding range
    by (cases "run 0"; cases "run 1"; cases "run 2")
       (simp_all add: transient_def rate_limited_def backoff_def failure_def)
qed

text \<open>
  An extraction whose OCR or transcription call fails yields a failed item: no handler
  calls the service a second time.
\<close>

lemma extract_text_with_mistral_fails:
  assumes "isl (ocr_process env pdf_file 0)"
  shows "isl (extract_text_with_mistral env fs pdf_file)"
  using assms by (auto simp: extract_text_with_mistral_def isl_def)

lemma extract_mistral_ocr_fails:
  assumes "isl (ocr_process env item 0)"
  shows "isl (fst (extract_mistral_ocr env fs item doc_dir))"
  using extract_text_with_mistral_fails [OF assms, of fs]
  by (auto simp: extract_mistral_ocr_def isl_def)

lemma extract_image_hybrid_fails:
  assumes "isl (ocr_process env item 0)"
  shows "isl (fst (extract_image_hybrid env fs item doc_dir))"
  using extract_text_with_mistral_fails [OF assms, of fs]
  by (auto simp: extract_image_hybrid_def isl_def)

lemma extract_audio_fails:
  assumes "isl (audio_transcribe env item 0)"
  shows "isl (fst (extract_audio env fs item doc_dir))"
  using assms by (auto simp: extract_audio_def isl_def)

lemma router_body_handler_fails:
  assumes "map_of handlers (detect_file_type item) = Some handler"
    and "\<And>fs2. isl (fst (handler env fs2 (documents_folder env @ [path_stem item, path_name item])
                              (documents_folder env @ [path_stem item])))"
  shows "isl (fst (router_body env fs item))"
  using assms by (simp add: router_body_def Let_def split: option.splits)

lemma router_failure:
  assumes "isl (fst (router_body env fs item))"
  shows "\<not> success (fst (extract_single_document_router env fs item))"
  using assms
  by (cases "router_body env fs item")
     (auto simp: extract_single_document_router_def empty_doc_def isl_def)

lemma ocr_failure_fails_item:
  assumes "detect_file_type item \<in> set [''pdf'', ''docx'', ''pptx'', ''image'']"
    and "isl (ocr_process env (documents_folder env @ [path_stem item, path_name item]) 0)"
  shows "\<not> success (fst (extract_single_document_router env fs item))"
proof -
  from assms(1) have "map_of handlers (detect_file_type item) = Some extract_mistral_ocr
      \<or> map_of handlers (detect_file_type item) = Some extract_image_hybrid"
    by (auto simp: handlers_def)
  then have "isl (fst (router_body env fs item))"
    using extract_mistral_ocr_fails [OF assms(2)] extract_image_hybrid_fails [OF assms(2)]
    by (auto intro: router_body_handler_fails)
  then show ?thesis by (rule router_failure)
qed

lemma audio_failure_fails_item:
  assumes "detect_file_type item = ''audio''"
    and "isl (audio_transcribe env (documents_folder env @ [path_stem item, path_name item]) 0)"
  shows "\<not> success (fst (extract_single_document_router env fs item))"
proof -
  from assms(1) have "map_of handlers (detect_file_type item) = Some extract_audio"
    by (simp add: handlers_def)
  then have "isl (fst (router_body env fs item))"
    using extract_audio_fails [OF assms(2)]
    by (auto intro: router_body_handler_fails)
  then show ?thesis by (rule router_failure)
qed

text \<open>
  The loop of \<open>_generate_summary_sync\<close> without a \<open>GeminiInterface\<close>: at most three calls,
  a pause of \<open>2 (i + 1)\<close> seconds after a rate-limit failure of attempt \<open>i\<close>, no pause
  after a timeout.
\<close>

lemma generate_summary_sync_retries:
  assumes "gemini_interface env = None"
    and "locate_text_file fs doc_info = Inr (folder, text_file)"
    and "relative_to text_file (workspace_root env) = Inr relative_text"
    and "relative_to (folder @ [''document_summary.json'']) (workspace_root env) = Inr relative_output"
  shows "generate_summary_sync env fs doc_info =
           (let run = gemini_cli env folder in
            if \<not> transient (run 0) then (failure (run 0), [Run 0])
            else if \<not> transient (run 1) then (failure (run 1), Run 0 # backoff 0 (run 0) @ [Run 1])
            else (failure (run 2), Run 0 # backoff 0 (run 0) @ Run 1 # backoff 1 (run 1) @ [Run 2]))"
  using assms retry_loop_three [of "gemini_cli env folder"]
  by (simp add: generate_summary_sync_def Let_def)

text \<open>The worker of the pool calls the command line at most once and never sleeps.\<close>

lemma static_worker_trace:
  "snd (generate_summary_worker_static env fs doc_info) = []
   \<or> snd (generate_summary_worker_static env fs doc_info) = [Run 0]"
  by (auto simp: generate_summary_worker_static_def Let_def
           split: sum.splits prod.splits cli_outcome.splits)

text \<open>
  C8 at a rate-limited call. The worker that \<open>phase_2_summarize_all\<close> maps over the
  documents, \<open>_generate_summary_worker_static\<close>, never makes a second call, whatever
  the first call answers. For the note of the example case and a command line whose
  first call exits with code 1 and \<open>429 Too Many Requests\<close> on its standard error and
  whose second call would succeed, it returns a failed record after one call, where the
  loop of \<open>_generate_summary_sync\<close> sleeps two seconds, calls again and succeeds.
  \<open>phase_2_summarize_all\<close> then does not return its results: the loop that logs the
  failed record raises \<open>KeyError\<close>. The same happens for the three documents that
  Phase 1 extracts from the example case.
\<close>

theorem pool_worker_does_not_retry:
  "length (snd (generate_summary_worker_static env fs doc_info)) \<le> 1
   \<and> list_all (\<lambda>e. e = Run 0) (snd (generate_summary_worker_static env fs doc_info))
   \<and> gemini_cli limited_env [''case'', ''documents'', ''note''] 0
       = Completed 1 ''429 Too Many Requests'' False
   \<and> gemini_cli limited_env [''case'', ''documents'', ''note''] 1 = Completed 0 [] True
   \<and> generate_summary_worker_static limited_env note_fs note_doc
       = (empty_doc\<lparr>file_path := Some [''case'', ''documents'', ''note'', ''note.txt''],
                     doc_folder := Some [''case'', ''documents'', ''note''],
                     success := False,
                     error := Some (Gemini_CLI_failed ''429 Too Many Requests'')\<rparr>,
          [Run 0])
   \<and> generate_summary_sync limited_env note_fs note_doc = (None, [Run 0, Sleep 2, Run 1])
   \<and> successful (phase_2_summarize_all limited_env note_fs [note_doc] 10) = []
   \<and> length (failed (phase_2_summarize_all limited_env note_fs [note_doc] 10)) = 1
   \<and> raised (phase_2_summarize_all limited_env note_fs [note_doc] 10) = Some (Key_error ''pdf_path'')
   \<and> length (successful (fst (phase_1_extract_all limited_env example_fs))) = 3
   \<and> length (failed (phase_2_summarize_all limited_env (snd (phase_1_extract_all limited_env example_fs))
                       (successful (fst (phase_1_extract_all limited_env example_fs))) 10)) = 3
   \<and> raised (phase_2_summarize_all limited_env (snd (phase_1_extract_all limited_env example_fs))
               (successful (fst (phase_1_extract_all limited_env example_fs))) 10)
       = Some (Key_error ''pdf_path'')"
proof (intro conjI)
  show "length (snd (generate_summary_worker_static env fs doc_info)) \<le> 1"
    using static_worker_trace [of env fs doc_info] by auto
  show "list_all (\<lambda>e. e = Run 0) (snd (generate_summary_worker_static env fs doc_info))"
    using static_worker_trace [of env fs doc_info] by auto
  show "gemini_cli limited_env [''case'', ''documents'', ''note''] 0
          = Completed 1 ''429 Too Many Requests'' False"
    by (simp add: limited_env_def example_env_def)
  show "gemini_cli limited_env [''case'', ''documents'', ''note''] 1 = Completed 0 [] True"
    by (simp add: limited_env_def example_env_def)
  show "generate_summary_worker_static limited_env note_fs note_doc
       = (empty_doc\<lparr>file_path := Some [''case'', ''documents'', ''note'', ''note.txt''],
                     doc_folder := Some [''case'', ''documents'', ''note''],
                     success := False,
                     error := Some (Gemini_CLI_failed ''429 Too Many Requests'')\<rparr>,
          [Run 0])"
    by code_simp
  show "generate_summary_sync limited_env note_fs note_doc = (None, [Run 0, Sleep 2, Run 1])"
    by code_simp
  show "successful (phase_2_summarize_all limited_env note_fs [note_doc] 10) = []"
    by code_simp
  show "length (failed (phase_2_summarize_all limited_env note_fs [note_doc] 10)) = 1"
    by code_simp
  show "raised (phase_2_summarize_all limited_env note_fs [note_doc] 10) = Some (Key_error ''pdf_path'')"
    by code_simp
  show "length (successful (fst (phase_1_extract_all limited_env example_fs))) = 3"
    by code_simp
  show "length (failed (phase_2_summarize_all limited_env (snd (phase_1_extract_all limited_env example_fs))
                       (successful (fst (phase_1_extract_all limited_env example_fs))) 10)) = 3"
    by code_simp
  show "raised (phase_2_summarize_all limited_env (snd (phase_1_extract_all limited_env example_fs))
               (successful (fst (phase_1_extract_all limited_env example_fs))) 10)
       = Some (Key_error ''pdf_path'')"
    by code_simp
qed

section \<open>The extraction batch and what Phase 2 receives\<close>

lemma pool_map_router_length: "length (fst (pool_map_router env fs files)) = length files"
proof (induction files arbitrary: fs)
  case Nil
  then show ?case by simp
next
  case (Cons item files)
  obtain result fs1 where step: "extract_single_document_router env fs item = (result, fs1)"
    by (cases "extract_single_document_router env fs item")
  obtain results fs2 where rest: "pool_map_router env fs1 files = (results, fs2)"
    by (cases "pool_map_router env fs1 files")
  from Cons.IH [of fs1] rest have "length results = length files"
    by simp
  with step rest show ?case by simp
qed

lemma filter_partition_length:
  "length (filter P xs) + length (filter (\<lambda>x. \<not> P x) xs) = length xs"
  by (induction xs) simp_all

lemma phase_1_pool:
  assumes "0 < cpu_count env" and "discover_intake_files env fs \<noteq> []"
  shows "\<not> min 10 (min (cpu_count env) (length (discover_intake_files env fs))) < 1"
  using assms by (cases "discover_intake_files env fs") simp_all

lemma phase_1_partition:
  assumes "0 < cpu_count env"
  shows "length (successful (fst (phase_1_extract_all env fs)))
           + length (failed (fst (phase_1_extract_all env fs)))
         = length (discover_intake_files env fs)"
proof (cases "discover_intake_files env fs = []")
  case True
  then show ?thesis by (simp add: phase_1_extract_all_def)
next
  case False
  obtain results fs1 where run: "pool_map_router env fs (discover_intake_files env fs) = (results, fs1)"
    by (cases "pool_map_router env fs (discover_intake_files env fs)")
  then have "length results = length (discover_intake_files env fs)"
    using pool_map_router_length [of env fs "discover_intake_files env fs"] by simp
  with False run phase_1_pool [OF assms False] show ?thesis
    by (simp add: phase_1_extract_all_def Let_def filter_partition_length)
qed

lemma phase_1_returns:
  assumes "0 < cpu_count env"
  shows "raised (fst (phase_1_extract_all env fs)) = None"
proof (cases "discover_intake_files env fs = []")
  case True
  then show ?thesis by (simp add: phase_1_extract_all_def)
next
  case False
  with phase_1_pool [OF assms False] show ?thesis
    by (cases "pool_map_router env fs (discover_intake_files env fs)")
       (simp add: phase_1_extract_all_def Let_def)
qed

lemma phase_1_flags:
  "list_all (\<lambda>r. success r) (successful (fst (phase_1_extract_all env fs)))
   \<and> list_all (\<lambda>r. \<not> success r) (failed (fst (phase_1_extract_all env fs)))"
  by (cases "pool_map_router env fs (discover_intake_files env fs)")
     (simp add: phase_1_extract_all_def Let_def list_all_iff)

lemma phase_2_input:
  assumes "0 < cpu_count env"
    and "\<not> EXHIBIT_EXTRACTOR_AVAILABLE env \<or> \<not> exhibit_enabled env"
  shows "fst (run_all_phases_phase_2_input env fs) =
     (if successful (fst (phase_1_extract_all env fs)) = [] then None
      else Some (successful (fst (phase_1_extract_all env fs))))"
  using phase_1_returns [OF assms(1), of fs] assms(2)
  by (cases "phase_1_extract_all env fs")
     (auto simp: run_all_phases_phase_2_input_def phase_1_5_extract_exhibits_def Let_def)

text \<open>
  C5. On a machine with at least one processor the extraction phase returns, and it
  gives every file of the batch one record: the successful and the failed records
  together are as many as the files, the first all flagged successful and the second
  all flagged failed. An error raised while a file is processed becomes the failed
  record of that file. When the extractor module is absent, as it is among the sources,
  or exhibit extraction is not enabled, \<open>run_all_phases\<close> passes to Phase 2 exactly the
  successful records; it does not call Phase 2 when there is none. The pool is the one
  of the model, which takes the workers one after the other.
\<close>

theorem extraction_batch_partition:
  assumes "0 < cpu_count env"
  shows "raised (fst (phase_1_extract_all env fs)) = None
   \<and> length (successful (fst (phase_1_extract_all env fs)))
       + length (failed (fst (phase_1_extract_all env fs)))
     = length (discover_intake_files env fs)
   \<and> list_all (\<lambda>r. success r) (successful (fst (phase_1_extract_all env fs)))
   \<and> list_all (\<lambda>r. \<not> success r) (failed (fst (phase_1_extract_all env fs)))
   \<and> (router_body env fs0 item = (Inl e, fs1) \<longrightarrow>
        extract_single_document_router env fs0 item
          = (empty_doc\<lparr>file_path := Some item, success := False, error := Some e\<rparr>, fs1))
   \<and> (\<not> EXHIBIT_EXTRACTOR_AVAILABLE env \<or> \<not> exhibit_enabled env \<longrightarrow>
        fst (run_all_phases_phase_2_input env fs) =
          (if successful (fst (phase_1_extract_all env fs)) = [] then None
           else Some (successful (fst (phase_1_extract_all env fs)))))"
proof (intro conjI impI)
  show "raised (fst (phase_1_extract_all env fs)) = None"
    using assms by (rule phase_1_returns)
  show "length (successful (fst (phase_1_extract_all env fs)))
          + length (failed (fst (phase_1_extract_all env fs)))
        = length (discover_intake_files env fs)"
    using assms by (rule phase_1_partition)
  show "list_all (\<lambda>r. success r) (successful (fst (phase_1_extract_all env fs)))"
    and "list_all (\<lambda>r. \<not> success r) (failed (fst (phase_1_extract_all env fs)))"
    using phase_1_flags by blast+
  show "extract_single_document_router env fs0 item
          = (empty_doc\<lparr>file_path := Some item, success := False, error := Some e\<rparr>, fs1)"
    if "router_body env fs0 item = (Inl e, fs1)"
    using that by (simp add: extract_single_document_router_def)
  show "fst (run_all_phases_phase_2_input env fs) =
          (if successful (fst (phase_1_extract_all env fs)) = [] then None
           else Some (successful (fst (phase_1_extract_all env fs))))"
    if "\<not> EXHIBIT_EXTRACTOR_AVAILABLE env \<or> \<not> exhibit_enabled env"
    using assms that by (rule phase_2_input)
qed

theorem extraction_batch_partition_witness:
  "0 < cpu_count example_env
   \<and> \<not> EXHIBIT_EXTRACTOR_AVAILABLE example_env
   \<and> length (discover_intake_files example_env five_fs) = 5
   \<and> length (successful (fst (phase_1_extract_all example_env five_fs))) = 3
   \<and> length (failed (fst (phase_1_extract_all example_env five_fs))) = 2
   \<and> raised (fst (phase_1_extract_all example_env five_fs)) = None
   \<and> fst (run_all_phases_phase_2_input example_env five_fs)
       = Some (successful (fst (phase_1_extract_all example_env five_fs)))
   \<and> isl (fst (router_body example_env five_fs [''case'', ''Intake'', ''call.mp3'']))
   \<and> \<not> success (fst (extract_single_document_router example_env five_fs [''case'', ''Intake'', ''call.mp3'']))"
proof -
  let ?mp3 = "[''case'', ''Intake'', ''call.mp3'']"
  let ?body = "router_body example_env five_fs ?mp3"
  have cpu: "0 < cpu_count example_env"
    by (simp add: example_env_def)
  have off: "\<not> EXHIBIT_EXTRACTOR_AVAILABLE example_env"
    by (simp add: example_env_def)
  have n: "length (discover_intake_files example_env five_fs) = 5"
    by code_simp
  have k: "length (failed (fst (phase_1_extract_all example_env five_fs))) = 2"
    by code_simp
  have raised: "isl (fst ?body)"
    by code_simp
  then have body: "?body = (Inl (projl (fst ?body)), snd ?body)"
    by (simp add: prod_eq_iff)
  note inst = extraction_batch_partition
    [OF cpu, of five_fs five_fs ?mp3 "projl (fst ?body)" "snd ?body"]
  from inst n k have m: "length (successful (fst (phase_1_extract_all example_env five_fs))) = 3"
    by simp
  then have some: "successful (fst (phase_1_extract_all example_env five_fs)) \<noteq> []"
    by auto
  from inst have returns: "raised (fst (phase_1_extract_all example_env five_fs)) = None"
    by blast
  from inst some off have input: "fst (run_all_phases_phase_2_input example_env five_fs)
       = Some (successful (fst (phase_1_extract_all example_env five_fs)))"
    by simp
  from inst body have "extract_single_document_router example_env five_fs ?mp3
       = (empty_doc\<lparr>file_path := Some ?mp3, success := False, error := Some (projl (fst ?body))\<rparr>, snd ?body)"
    by blast
  then have failure: "\<not> success (fst (extract_single_document_router example_env five_fs ?mp3))"
    by (simp add: empty_doc_def)
  show ?thesis
    by (intro conjI) (fact cpu off n m k returns input raised failure)+
qed

section \<open>Resuming at the summarize phase\<close>

text \<open>
  C1 at the example case. After a successful extraction \<open>run_all_phases\<close> passes the
  records of \<open>data.csv\<close>, \<open>note.txt\<close> and \<open>notice.pdf\<close> to Phase 2; from the file system
  that the extraction leaves, \<open>_load_extracted_documents\<close> rebuilds the record of
  \<open>notice.pdf\<close> alone.
\<close>

theorem resume_loads_pdf_documents_only:
  "map (\<lambda>d. (doc_folder d, file_ref d)) (successful (fst (phase_1_extract_all example_env example_fs)))
     = [(Some [''case'', ''documents'', ''data''], Some [''case'', ''documents'', ''data'', ''data.csv'']),
        (Some [''case'', ''documents'', ''note''], Some [''case'', ''documents'', ''note'', ''note.txt'']),
        (Some [''case'', ''documents'', ''notice''], Some [''case'', ''documents'', ''notice'', ''notice.pdf''])]
   \<and> fst (run_all_phases_phase_2_input example_env example_fs)
       = Some (successful (fst (phase_1_extract_all example_env example_fs)))
   \<and> map (\<lambda>d. (doc_folder d, file_ref d))
         (load_extracted_documents example_env (snd (phase_1_extract_all example_env example_fs)))
     = [(Some [''case'', ''documents'', ''notice''], Some [''case'', ''documents'', ''notice'', ''notice.pdf''])]"
proof (intro conjI)
  show "map (\<lambda>d. (doc_folder d, file_ref d)) (successful (fst (phase_1_extract_all example_env example_fs)))
     = [(Some [''case'', ''documents'', ''data''], Some [''case'', ''documents'', ''data'', ''data.csv'']),
        (Some [''case'', ''documents'', ''note''], Some [''case'', ''documents'', ''note'', ''note.txt'']),
        (Some [''case'', ''documents'', ''notice''], Some [''case'', ''documents'', ''notice'', ''notice.pdf''])]"
    by code_simp
  show "fst (run_all_phases_phase_2_input example_env example_fs)
       = Some (successful (fst (phase_1_extract_all example_env example_fs)))"
    by code_simp
  show "map (\<lambda>d. (doc_folder d, file_ref d))
         (load_extracted_documents example_env (snd (phase_1_extract_all example_env example_fs)))
     = [(Some [''case'', ''documents'', ''notice''], Some [''case'', ''documents'', ''notice'', ''notice.pdf''])]"
    by code_simp
qed

end
